theory Spec2Isabelle
  imports Complex_Main
begin

section \<open>Data model of \<open>video2dataset/dataloader/transform.py\<close>\<close>

text \<open>
  Every exception the module can raise is a value of \<open>error\<close>; a fallible function returns
  \<open>error + 'a\<close> with \<open>Inl\<close> for the raised exception. \<open>Cv2Error\<close> is the exception
  \<^verbatim>\<open>cv2.resize\<close> raises for a source that is not an image (\<^verbatim>\<open>cv2.error\<close>; older
  bindings raise a \<^verbatim>\<open>TypeError\<close> there).
\<close>

datatype error =
  KeyError | IndexError | TypeError | ValueError | AssertionError | ZeroDivisionError
| AttributeError | OverflowError | RuntimeError | Cv2Error

text \<open>
  A frame is a height x width x channel array of pixel values, a list of rows of pixels.
  Pixel values are reals: an 8-bit input value \<open>v\<close> is the real \<open>v\<close>, and the arithmetic
  on pixel values is exact. A list without rows, or of rows without pixels, does not
  record the remaining dimensions of the array it stands for.
\<close>

type_synonym frame = "real list list list"

text \<open>
  The element type of a tensor of frames: \<open>Native\<close> is whatever the input frames had
  (stacking does not change it), \<open>Float16\<close> is the result of \<open>.to(torch.float16)\<close>.
\<close>

datatype dtype = Native | Float16

text \<open>
  The values a sample holds: a Python list of frames (numpy arrays), a torch tensor of
  frames (what the resizer writes back), a one-dimensional torch tensor of integer
  metadata (\<open>original_height\<close>, \<open>original_width\<close>), a nested dictionary with string
  keys, or a string.
\<close>

datatype val =
  Frames "frame list"
| Stacked dtype "frame list"
| Meta "int list"
| Dict "string \<Rightarrow> val option"
| Other string

type_synonym sample = "string \<Rightarrow> val option"

section \<open>CutsAdder\<close>

record cuts_adder =
  cuts_key :: string
  video_key :: string

text \<open>
  \<^verbatim>\<open>CutsAdder.__call__\<close>: two assertions, then the nested dictionary literal
  \<^verbatim>\<open>{video_key: sample[video_key], cuts_key: sample[cuts_key]}\<close> is stored under
  \<^verbatim>\<open>video_key\<close>, and then \<^verbatim>\<open>del sample[self.video_key]\<close> removes the entry
  stored under \<^verbatim>\<open>video_key\<close>.
\<close>

definition CutsAdder_call :: "cuts_adder \<Rightarrow> sample \<Rightarrow> error + sample" where
  "CutsAdder_call c smp =
     (case smp (cuts_key c) of
        None \<Rightarrow> Inl AssertionError
      | Some cuts \<Rightarrow>
          (case smp (video_key c) of
             None \<Rightarrow> Inl AssertionError
           | Some video \<Rightarrow>
               (let nested = Dict ((Map.empty(video_key c \<mapsto> video))(cuts_key c \<mapsto> cuts));
                    smp1 = smp(video_key c \<mapsto> nested);
                    smp2 = smp1(video_key c := None)
                in Inr smp2)))"

section \<open>Python primitives used by VideoResizer\<close>

text \<open>
  Python's \<^verbatim>\<open>round\<close> on a float rounds to the nearest integer and a tie to the even
  neighbour.
\<close>

definition py_round :: "real \<Rightarrow> int" where
  "py_round x =
     (let f = \<lfloor>x\<rfloor>; d = x - of_int f
      in if d < 1 / 2 then f
         else if 1 / 2 < d then f + 1
         else if even f then f else f + 1)"

text \<open>
  Python floats are IEEE 754 binary64 numbers. \<open>double_round x\<close> is the double nearest
  to the real \<open>x\<close>, a tie going to the even significand: the spacing of the doubles
  around \<open>x\<close> is \<open>2 ^ (e - 52)\<close> for the binary exponent \<open>e\<close> of \<open>x\<close>, which is not
  taken below -1022 (the subnormal doubles share the spacing \<open>2 ^ -1074\<close>).
\<close>

definition double_exponent :: "real \<Rightarrow> int" where
  "double_exponent x = max \<lfloor>log 2 \<bar>x\<bar>\<rfloor> (- 1022)"

definition double_round :: "real \<Rightarrow> real" where
  "double_round x =
     (if x = 0 then 0
      else of_int (py_round (x / 2 powi (double_exponent x - 52))) * 2 powi (double_exponent x - 52))"

text \<open>
  The result of a float operation whose exact value is \<open>x\<close>. A result that rounds to
  \<open>2 ^ 1024\<close> or beyond is no finite double: the division of two integers and the
  conversion of an integer to a float raise \<open>OverflowError\<close> there, and a product becomes
  infinite, on which \<^verbatim>\<open>round\<close> raises \<open>OverflowError\<close> as well.
\<close>

definition to_double :: "real \<Rightarrow> error + real" where
  "to_double x =
     (if 2 ^ 1024 \<le> \<bar>double_round x\<bar> then Inl OverflowError else Inr (double_round x))"

text \<open>\<^verbatim>\<open>n * f\<close> for an integer \<open>n\<close> and a float \<open>f\<close>: \<open>n\<close> is converted, then multiplied.\<close>

definition int_times_float :: "int \<Rightarrow> real \<Rightarrow> error + real" where
  "int_times_float n f =
     (case to_double (real_of_int n) of
        Inl e \<Rightarrow> Inl e
      | Inr x \<Rightarrow> to_double (x * f))"

text \<open>
  A slice bound \<open>i\<close> on a sequence of length \<open>n\<close>: a negative bound counts from the
  end, and every bound is clamped to \<open>0..n\<close>. \<^verbatim>\<open>xs[a:b]\<close> is empty when the
  normalised bounds cross.
\<close>

definition slice_index :: "nat \<Rightarrow> int \<Rightarrow> nat" where
  "slice_index n i = (if i < 0 then nat (max 0 (int n + i)) else min n (nat i))"

definition py_slice :: "int \<Rightarrow> int \<Rightarrow> 'a list \<Rightarrow> 'a list" where
  "py_slice a b xs =
     (let n = length xs; lo = slice_index n a; hi = slice_index n b
      in take (hi - lo) (drop lo xs))"

text \<open>
  \<^verbatim>\<open>frame.shape[:2]\<close>: the number of rows and the length of a row. A list of rows
  does not record the width of a frame with no row (an array does); it is given width 0.
\<close>

definition frame_shape :: "frame \<Rightarrow> int \<times> int" where
  "frame_shape fr = (int (length fr), (case fr of [] \<Rightarrow> 0 | r # _ \<Rightarrow> int (length r)))"

text \<open>
  The shape of a frame as the lengths of the pixels of each row; two frames (rectangular,
  as arrays are, and with at least one row and column) have the same shape exactly when
  these agree.
\<close>

definition frame_dims :: "frame \<Rightarrow> nat list list" where
  "frame_dims fr = map (map length) fr"

text \<open>
  \<^verbatim>\<open>np.stack\<close> of a list of frames raises \<open>ValueError\<close> on an empty list and on frames of
  different shapes; \<^verbatim>\<open>torch.stack\<close> raises \<open>RuntimeError\<close> there. Stacking keeps the
  frames and their values.
\<close>

definition stack_frames :: "error \<Rightarrow> frame list \<Rightarrow> error + frame list" where
  "stack_frames err frs =
     (case frs of
        [] \<Rightarrow> Inl err
      | fr0 # _ \<Rightarrow>
          if list_all (\<lambda>fr. frame_dims fr = frame_dims fr0) frs then Inr frs else Inl err)"

definition np_stack :: "frame list \<Rightarrow> error + frame list" where
  "np_stack frs = stack_frames ValueError frs"

definition torch_stack :: "frame list \<Rightarrow> error + frame list" where
  "torch_stack frs = stack_frames RuntimeError frs"

text \<open>
  Modelled from the spec: the pseudo-random source. \<^verbatim>\<open>self.prng\<close> comes from
  \<^verbatim>\<open>PRNGMixin\<close> of \<^verbatim>\<open>video_decode\<close> (a numpy \<^verbatim>\<open>RandomState\<close>), which is not among
  the sources; the spec asks for "uniform random integer in [lo, hi)" draws. The generator
  is a parameter \<open>gen\<close> that turns a state into a raw number and the next state;
  \<open>randint\<close> raises \<open>ValueError\<close> on an empty range, as numpy does, and otherwise
  reduces the raw number into the half-open range. The probability distribution of the
  raw numbers is not modelled.
\<close>

definition randint :: "('s \<Rightarrow> nat \<times> 's) \<Rightarrow> int \<Rightarrow> int \<Rightarrow> 's \<Rightarrow> error + (int \<times> 's)" where
  "randint gen low high s =
     (if high \<le> low then Inl ValueError
      else (case gen s of (r, s') \<Rightarrow> Inr (low + int r mod (high - low), s')))"

section \<open>VideoResizer\<close>

text \<open>A size argument of the constructor: a single \<^verbatim>\<open>int\<close> or a pair \<^verbatim>\<open>[h, w]\<close>.\<close>

datatype size_arg = Scalar int | Pair int int

record video_resizer =
  key :: string
  height_key :: string
  width_key :: string
  resize_size :: "size_arg option"
  crop_size :: "(int \<times> int) option"
  random_crop :: bool

text \<open>
  \<^verbatim>\<open>VideoResizer.__init__\<close>: an integer crop size becomes the square pair, and the
  random-crop flag is kept only when a crop size is given. The messages it prints are
  not modelled.
\<close>

definition VideoResizer_init ::
  "size_arg option \<Rightarrow> size_arg option \<Rightarrow> bool \<Rightarrow> string \<Rightarrow> string \<Rightarrow> string \<Rightarrow> video_resizer" where
  "VideoResizer_init size' crop_size' random_crop' key' width_key' height_key' =
     (let cs = (case crop_size' of
                  None \<Rightarrow> None
                | Some (Scalar c) \<Rightarrow> Some (c, c)
                | Some (Pair ch cw) \<Rightarrow> Some (ch, cw))
      in \<lparr>key = key', height_key = height_key', width_key = width_key',
          resize_size = size', crop_size = cs,
          random_crop = (random_crop' \<and> cs \<noteq> None)\<rparr>)"

text \<open>
  \<^verbatim>\<open>get_rand_reference\<close>: the assertion, the sampling bounds of each axis with the
  corner case, then the draw of \<open>x\<close> and the draw of \<open>y\<close>. The reference \<^verbatim>\<open>[y, x]\<close>
  is the pair \<open>(y, x)\<close>. Reading \<^verbatim>\<open>self.crop_size[0]\<close> of an unset crop size raises
  \<open>TypeError\<close>.
\<close>

definition get_rand_reference ::
  "('s \<Rightarrow> nat \<times> 's) \<Rightarrow> video_resizer \<Rightarrow> (int \<times> int) option \<Rightarrow> int \<Rightarrow> int \<Rightarrow> 's
     \<Rightarrow> error + ((int \<times> int) \<times> 's)" where
  "get_rand_reference gen self rs h w s =
     (case crop_size self of
        None \<Rightarrow> Inl TypeError
      | Some (ch, cw) \<Rightarrow>
          if \<not> (case rs of None \<Rightarrow> True | Some (rh, rw) \<Rightarrow> ch \<le> rh \<and> cw \<le> rw)
          then Inl AssertionError
          else
            (let min_x = \<lceil>real_of_int cw / 2\<rceil>;
                 max_x = w - min_x;
                 max_x = (if min_x = max_x then min (max_x + 1) w else max_x);
                 min_y = \<lceil>real_of_int ch / 2\<rceil>;
                 max_y = h - min_y;
                 max_y = (if min_y = max_y then min (max_y + 1) h else max_y)
             in (case randint gen min_x max_x s of
                   Inl e \<Rightarrow> Inl e
                 | Inr (x, s1) \<Rightarrow>
                     (case randint gen min_y max_y s1 of
                        Inl e \<Rightarrow> Inl e
                      | Inr (y, s2) \<Rightarrow> Inr ((y, x), s2)))))"

text \<open>
  \<^verbatim>\<open>get_resize_size\<close>: returns the resize size (or \<open>None\<close>) and the frame dimensions
  \<open>(h, w)\<close> after resizing. For an integer resize size the factor is the float quotient
  \<^verbatim>\<open>self.resize_size / min((orig_h, orig_w))\<close> of two integers (the correctly rounded
  quotient; \<open>ZeroDivisionError\<close> when the smaller original dimension is 0), each new
  dimension the float product \<^verbatim>\<open>orig_h * f\<close> rounded to an integer by \<^verbatim>\<open>round\<close>.
\<close>

definition get_resize_size ::
  "video_resizer \<Rightarrow> frame \<Rightarrow> int \<Rightarrow> int \<Rightarrow> error + ((int \<times> int) option \<times> (int \<times> int))" where
  "get_resize_size self fr orig_h orig_w =
     (case resize_size self of
        Some (Scalar S) \<Rightarrow>
          if min orig_h orig_w = 0 then Inl ZeroDivisionError
          else
            (case to_double (real_of_int S / real_of_int (min orig_h orig_w)) of
               Inl e \<Rightarrow> Inl e
             | Inr f \<Rightarrow>
            (case int_times_float orig_h f of
               Inl e \<Rightarrow> Inl e
             | Inr ph \<Rightarrow>
            (case int_times_float orig_w f of
               Inl e \<Rightarrow> Inl e
             | Inr pw \<Rightarrow>
                 (let rs = (py_round ph, py_round pw) in Inr (Some rs, rs)))))
      | Some (Pair rh rw) \<Rightarrow> Inr (Some (rh, rw), (rh, rw))
      | None \<Rightarrow> Inr (None, frame_shape fr))"

definition get_reference_frame ::
  "('s \<Rightarrow> nat \<times> 's) \<Rightarrow> video_resizer \<Rightarrow> (int \<times> int) option \<Rightarrow> int \<Rightarrow> int \<Rightarrow> 's
     \<Rightarrow> error + ((int \<times> int) \<times> 's)" where
  "get_reference_frame gen self rs h w s =
     (if random_crop self then get_rand_reference gen self rs h w s
      else Inr ((h div 2, w div 2), s))"

text \<open>The affine rescaling of one pixel value, \<^verbatim>\<open>frame.astype(float) / 127.5 - 1.\<close>.\<close>

definition rescale :: "real \<Rightarrow> real" where
  "rescale v = v / (255 / 2) - 1"

text \<open>
  The body of the loop over the frames, for the resize size \<open>rs\<close> and the reference
  \<open>ref\<close> computed before the loop. Its first two statements are the geometry:
  the resize (\<open>cv2_resize\<close> is the library's resize primitive, a parameter; it is
  given the size as (width, height)) and the crop window cut by slicing rows and columns.
\<close>

definition resize_crop_frame ::
  "(int \<times> int \<Rightarrow> frame \<Rightarrow> frame) \<Rightarrow> video_resizer \<Rightarrow> (int \<times> int) option \<Rightarrow> int \<times> int
     \<Rightarrow> frame \<Rightarrow> frame" where
  "resize_crop_frame cv2_resize self rs ref fr =
     (let fr1 = (case rs of None \<Rightarrow> fr | Some (rh, rw) \<Rightarrow> cv2_resize (rw, rh) fr)
      in (case crop_size self of
            None \<Rightarrow> fr1
          | Some (ch, cw) \<Rightarrow>
              (let x0 = snd ref - py_round (real_of_int cw / 2);
                   y0 = fst ref - py_round (real_of_int ch / 2)
               in map (py_slice x0 (x0 + cw)) (py_slice y0 (y0 + ch) fr1))))"

text \<open>The third statement rescales every pixel value of the frame.\<close>

definition transform_frame ::
  "(int \<times> int \<Rightarrow> frame \<Rightarrow> frame) \<Rightarrow> video_resizer \<Rightarrow> (int \<times> int) option \<Rightarrow> int \<times> int
     \<Rightarrow> frame \<Rightarrow> frame" where
  "transform_frame cv2_resize self rs ref fr =
     map (map (map rescale)) (resize_crop_frame cv2_resize self rs ref fr)"

text \<open>
  \<^verbatim>\<open>cv2.resize\<close> raises \<^verbatim>\<open>cv2.error\<close> for a target size without positive width and
  height and for a source frame without elements; \<open>cv2_resize\<close> stands for what it
  returns otherwise. The other refusals of the library (a size beyond its integer range,
  exhausted memory) are not modelled.
\<close>

definition cv2_raises :: "(int \<times> int) option \<Rightarrow> frame \<Rightarrow> bool" where
  "cv2_raises rs fr =
     (case rs of
        None \<Rightarrow> False
      | Some (rh, rw) \<Rightarrow> rh \<le> 0 \<or> rw \<le> 0 \<or> concat (concat fr) = [])"

text \<open>
  The loop \<^verbatim>\<open>for i, frame in enumerate(frames)\<close>, appending to \<^verbatim>\<open>result\<close>; the
  first frame the resize refuses ends it.
\<close>

fun frames_loop ::
  "(int \<times> int \<Rightarrow> frame \<Rightarrow> frame) \<Rightarrow> video_resizer \<Rightarrow> (int \<times> int) option \<Rightarrow> int \<times> int
     \<Rightarrow> frame list \<Rightarrow> frame list \<Rightarrow> error + frame list" where
  "frames_loop cv2_resize self rs ref [] result = Inr result"
| "frames_loop cv2_resize self rs ref (fr # frs) result =
     (if cv2_raises rs fr then Inl Cv2Error
      else frames_loop cv2_resize self rs ref frs
             (result @ [transform_frame cv2_resize self rs ref fr]))"

text \<open>
  \<^verbatim>\<open>.item()\<close> of a frame: the value of a frame with exactly one element, taken to be
  an integer (input frames are 8-bit). On any other frame numpy raises \<open>ValueError\<close> and
  torch \<open>RuntimeError\<close>, the argument \<open>err\<close>.
\<close>

definition frame_item :: "error \<Rightarrow> frame \<Rightarrow> error + int" where
  "frame_item err fr = (case concat (concat fr) of [v] \<Rightarrow> Inr \<lfloor>v\<rfloor> | _ \<Rightarrow> Inl err)"

text \<open>
  \<^verbatim>\<open>data[k][0].item()\<close>: the first entry of a metadata tensor. A missing key and a
  dictionary (which has no key 0) raise \<open>KeyError\<close>, an empty sequence \<open>IndexError\<close>, the
  first character of a string has no \<^verbatim>\<open>item\<close>, and the first frame of a sequence of frames
  is asked for its \<^verbatim>\<open>item\<close>.
\<close>

definition first_item :: "sample \<Rightarrow> string \<Rightarrow> error + int" where
  "first_item data k =
     (case data k of
        None \<Rightarrow> Inl KeyError
      | Some (Meta []) \<Rightarrow> Inl IndexError
      | Some (Meta (x # _)) \<Rightarrow> Inr x
      | Some (Dict _) \<Rightarrow> Inl KeyError
      | Some (Other []) \<Rightarrow> Inl IndexError
      | Some (Other (_ # _)) \<Rightarrow> Inl AttributeError
      | Some (Frames []) \<Rightarrow> Inl IndexError
      | Some (Frames (fr # _)) \<Rightarrow> frame_item ValueError fr
      | Some (Stacked _ []) \<Rightarrow> Inl IndexError
      | Some (Stacked _ (fr # _)) \<Rightarrow> frame_item RuntimeError fr)"

text \<open>
  What \<^verbatim>\<open>frames[0]\<close> and the loop over \<^verbatim>\<open>frames\<close> find in the video value: a numpy
  frame in a list of frames, a tensor frame in a tensor of frames, a zero-dimensional
  tensor in a metadata tensor, a character in a string.
\<close>

datatype elem = FrameElem frame | TensorElem frame | ScalarElem | CharElem

definition first_elem :: "val \<Rightarrow> error + elem" where
  "first_elem v =
     (case v of
        Frames [] \<Rightarrow> Inl IndexError
      | Frames (fr # _) \<Rightarrow> Inr (FrameElem fr)
      | Stacked _ [] \<Rightarrow> Inl IndexError
      | Stacked _ (fr # _) \<Rightarrow> Inr (TensorElem fr)
      | Meta [] \<Rightarrow> Inl IndexError
      | Meta (_ # _) \<Rightarrow> Inr ScalarElem
      | Dict _ \<Rightarrow> Inl KeyError
      | Other [] \<Rightarrow> Inl IndexError
      | Other (_ # _) \<Rightarrow> Inr CharElem)"

text \<open>
  The call \<^verbatim>\<open>self.get_resize_size(frames[0], orig_h, orig_w)\<close>. Only without a resize
  size is the first element asked for its shape: a zero-dimensional tensor has an empty
  one, which does not unpack into \<open>h, w\<close> (\<open>ValueError\<close>), and a character has none.
\<close>

definition resize_size_of_first ::
  "video_resizer \<Rightarrow> elem \<Rightarrow> int \<Rightarrow> int \<Rightarrow> error + ((int \<times> int) option \<times> (int \<times> int))" where
  "resize_size_of_first self el orig_h orig_w =
     (case el of
        FrameElem fr \<Rightarrow> get_resize_size self fr orig_h orig_w
      | TensorElem fr \<Rightarrow> get_resize_size self fr orig_h orig_w
      | ScalarElem \<Rightarrow>
          if resize_size self = None then Inl ValueError
          else get_resize_size self [] orig_h orig_w
      | CharElem \<Rightarrow>
          if resize_size self = None then Inl AttributeError
          else get_resize_size self [] orig_h orig_w)"

text \<open>
  The frames the loop can transform are those of a list of numpy frames. On any other
  video value the first round of the loop raises: \<^verbatim>\<open>cv2.resize\<close> refuses a source that
  is not a numpy image, and without a resize size (the elements are tensor frames then)
  the crop slices work and \<^verbatim>\<open>frame.astype\<close> does not exist.
\<close>

definition frames_of :: "val \<Rightarrow> error + frame list" where
  "frames_of v = (case v of Frames frs \<Rightarrow> Inr frs | _ \<Rightarrow> Inl TypeError)"

definition loop_error :: "(int \<times> int) option \<Rightarrow> error" where
  "loop_error rs = (if rs = None then AttributeError else Cv2Error)"

text \<open>
  \<^verbatim>\<open>VideoResizer.__call__\<close>. The sample is updated and returned together with the
  state of the generator. \<open>f16\<close> is the library's rounding of one value to 16-bit
  floating point, a parameter; \<open>cv2_resize\<close>, a parameter as well, is applied to numpy
  frames only.
\<close>

definition VideoResizer_call ::
  "('s \<Rightarrow> nat \<times> 's) \<Rightarrow> (int \<times> int \<Rightarrow> frame \<Rightarrow> frame) \<Rightarrow> (real \<Rightarrow> real)
     \<Rightarrow> video_resizer \<Rightarrow> sample \<Rightarrow> 's \<Rightarrow> error + (sample \<times> 's)" where
  "VideoResizer_call gen cv2_resize f16 self data s =
     (if crop_size self = None \<and> resize_size self = None then
        (case data (key self) of
           None \<Rightarrow> Inl KeyError
         | Some (Frames frs) \<Rightarrow>
             (case np_stack frs of
                Inl e \<Rightarrow> Inl e
              | Inr arr \<Rightarrow> Inr (data(key self \<mapsto> Stacked Native arr), s))
         | Some _ \<Rightarrow> Inr (data, s))
      else
        (case data (key self) of
           None \<Rightarrow> Inl KeyError
         | Some v \<Rightarrow>
        (case first_item data (height_key self) of
           Inl e \<Rightarrow> Inl e
         | Inr orig_h \<Rightarrow>
        (case first_item data (width_key self) of
           Inl e \<Rightarrow> Inl e
         | Inr orig_w \<Rightarrow>
        (case first_elem v of
           Inl e \<Rightarrow> Inl e
         | Inr el \<Rightarrow>
        (case resize_size_of_first self el orig_h orig_w of
           Inl e \<Rightarrow> Inl e
         | Inr (rs, (h, w)) \<Rightarrow>
        (case get_reference_frame gen self rs h w s of
           Inl e \<Rightarrow> Inl e
         | Inr (ref, s') \<Rightarrow>
        (case frames_of v of
           Inl _ \<Rightarrow> Inl (loop_error rs)
         | Inr frs \<Rightarrow>
        (case frames_loop cv2_resize self rs ref frs [] of
           Inl e \<Rightarrow> Inl e
         | Inr result \<Rightarrow>
        (case torch_stack result of
           Inl e \<Rightarrow> Inl e
         | Inr stacked \<Rightarrow>
             Inr (data(key self \<mapsto> Stacked Float16 (map (map (map (map f16))) stacked)),
                  s')))))))))))"

section \<open>video_transform\<close>

text \<open>
  The clip given to the transform is a 4-dimensional tensor: its frames and the three
  dimensions every frame has (a tensor knows them even when it has no frame).
\<close>

record video_tensor =
  dims :: "nat \<times> nat \<times> nat"
  clip :: "frame list"

text \<open>
  \<^verbatim>\<open>video.permute(0, 3, 1, 2)\<close>: the time axis stays, and each frame goes from
  height x width x channel to channel x height x width.
\<close>

definition permute_frame :: "nat \<times> nat \<times> nat \<Rightarrow> frame \<Rightarrow> frame" where
  "permute_frame d fr =
     (case d of (h, w, c) \<Rightarrow>
        map (\<lambda>k. map (\<lambda>i. map (\<lambda>j. fr ! i ! j ! k) [0..<w]) [0..<h]) [0..<c])"

definition permute_0312 :: "video_tensor \<Rightarrow> video_tensor" where
  "permute_0312 v =
     (case dims v of (h, w, c) \<Rightarrow>
        \<lparr>dims = (c, h, w), clip = map (permute_frame (h, w, c)) (clip v)\<rparr>)"

text \<open>The elements at positions 0, k, 2k, ... of a list, for a stride \<open>k\<close>.\<close>

fun every_nth :: "nat \<Rightarrow> 'a list \<Rightarrow> 'a list" where
  "every_nth k [] = []"
| "every_nth k (x # xs) = x # every_nth k (drop (k - 1) xs)"

text \<open>\<^verbatim>\<open>video[::k]\<close>: a tensor refuses a step that is not positive.\<close>

definition strided :: "int \<Rightarrow> 'a list \<Rightarrow> error + 'a list" where
  "strided k xs = (if k \<le> 0 then Inl ValueError else Inr (every_nth (nat k) xs))"

text \<open>
  The two slicing statements of \<^verbatim>\<open>apply_frame_transform\<close>,
  \<^verbatim>\<open>video[::take_every_nth]\<close> and then \<^verbatim>\<open>video[:n_frames]\<close>.
\<close>

definition temporal_sample :: "int \<Rightarrow> int \<Rightarrow> 'a list \<Rightarrow> error + 'a list" where
  "temporal_sample take_every_nth n_frames frs =
     (case strided take_every_nth frs of
        Inl e \<Rightarrow> Inl e
      | Inr frs1 \<Rightarrow> Inr (py_slice 0 n_frames frs1))"

text \<open>\<^verbatim>\<open>torch.zeros\<close> of the dimensions of one frame.\<close>

definition zeros :: "nat \<times> nat \<times> nat \<Rightarrow> frame" where
  "zeros d = (case d of (a, b, c) \<Rightarrow> replicate a (replicate b (replicate c 0)))"

text \<open>
  The padding statement: when fewer than \<open>n_frames\<close> frames are left, a tensor of
  \<open>n_frames\<close> zero frames is made and the frames are written over its beginning.
\<close>

definition pad_frames :: "int \<Rightarrow> nat \<times> nat \<times> nat \<Rightarrow> frame list \<Rightarrow> frame list" where
  "pad_frames n_frames d frs =
     (if int (length frs) < n_frames
      then frs @ replicate (nat n_frames - length frs) (zeros d)
      else frs)"

text \<open>
  The per-frame pipeline is a composition of torchvision transforms, which are not part of
  this module: they are the fields of a record, each a function that may raise, over the
  library's image values \<open>'x\<close> and the state \<open>'r\<close> of torch's random source.
  \<open>ToPILImage\<close> takes \<^verbatim>\<open>frame.float()\<close>; \<open>Normalize\<close> is the transform built from the mean
  and standard deviation; \<open>draw_unit\<close> draws a number of the unit interval; and
  \<open>crop_resized\<close> is what \<^verbatim>\<open>RandomResizedCrop\<close> does once it has drawn its first area
  fraction.
\<close>

record ('x, 'r) torchvision =
  ToPILImage :: "frame \<Rightarrow> error + 'x"
  draw_unit :: "'r \<Rightarrow> real \<times> 'r"
  crop_resized :: "int \<Rightarrow> real \<Rightarrow> 'r \<Rightarrow> 'x \<Rightarrow> error + ('x \<times> 'r)"
  Resize :: "int \<Rightarrow> 'x \<Rightarrow> error + 'x"
  CenterCrop :: "int \<Rightarrow> 'x \<Rightarrow> error + 'x"
  convert_to_rgb :: "'x \<Rightarrow> error + 'x"
  ToTensor :: "'x \<Rightarrow> error + 'x"
  Normalize :: "'x \<Rightarrow> error + 'x"

text \<open>
  \<^verbatim>\<open>torch.empty(1).uniform_(low, high)\<close>: torch refuses a range whose lower bound is
  above the upper one with \<open>RuntimeError\<close>.
\<close>

definition torch_uniform :: "('r \<Rightarrow> real \<times> 'r) \<Rightarrow> real \<Rightarrow> real \<Rightarrow> 'r \<Rightarrow> error + (real \<times> 'r)" where
  "torch_uniform draw low high r =
     (if high < low then Inl RuntimeError
      else (case draw r of (u, r1) \<Rightarrow> Inr (low + u * (high - low), r1)))"

text \<open>
  \<^verbatim>\<open>RandomResizedCrop(size, scale)\<close> applied to an image: the first thing its search for
  a crop window does is to draw the area fraction by \<^verbatim>\<open>uniform_(scale[0], scale[1])\<close>
  (in the versions of the library that have \<^verbatim>\<open>InterpolationMode\<close>, which the module
  imports).
\<close>

definition RandomResizedCrop ::
  "('x, 'r) torchvision \<Rightarrow> int \<Rightarrow> real \<times> real \<Rightarrow> 'r \<Rightarrow> 'x \<Rightarrow> error + ('x \<times> 'r)" where
  "RandomResizedCrop lib size' scale r img =
     (case torch_uniform (draw_unit lib) (fst scale) (snd scale) r of
        Inl e \<Rightarrow> Inl e
      | Inr (area, r1) \<Rightarrow> crop_resized lib size' area r1 img)"

text \<open>
  The two compositions \<^verbatim>\<open>video_transform\<close> builds, for training
  (\<^verbatim>\<open>RandomResizedCrop(frame_size, scale=(0.9, 0.1))\<close>) and for evaluation.
\<close>

definition train_transform ::
  "('x, 'r) torchvision \<Rightarrow> int \<Rightarrow> 'r \<Rightarrow> frame \<Rightarrow> error + ('x \<times> 'r)" where
  "train_transform lib frame_size r fr =
     (case ToPILImage lib fr of
        Inl e \<Rightarrow> Inl e
      | Inr img \<Rightarrow>
     (case RandomResizedCrop lib frame_size (9 / 10, 1 / 10) r img of
        Inl e \<Rightarrow> Inl e
      | Inr (img1, r1) \<Rightarrow>
     (case convert_to_rgb lib img1 of
        Inl e \<Rightarrow> Inl e
      | Inr img2 \<Rightarrow>
     (case ToTensor lib img2 of
        Inl e \<Rightarrow> Inl e
      | Inr img3 \<Rightarrow>
     (case Normalize lib img3 of
        Inl e \<Rightarrow> Inl e
      | Inr out \<Rightarrow> Inr (out, r1))))))"

definition eval_transform ::
  "('x, 'r) torchvision \<Rightarrow> int \<Rightarrow> 'r \<Rightarrow> frame \<Rightarrow> error + ('x \<times> 'r)" where
  "eval_transform lib frame_size r fr =
     (case ToPILImage lib fr of
        Inl e \<Rightarrow> Inl e
      | Inr img \<Rightarrow>
     (case Resize lib frame_size img of
        Inl e \<Rightarrow> Inl e
      | Inr img1 \<Rightarrow>
     (case CenterCrop lib frame_size img1 of
        Inl e \<Rightarrow> Inl e
      | Inr img2 \<Rightarrow>
     (case convert_to_rgb lib img2 of
        Inl e \<Rightarrow> Inl e
      | Inr img3 \<Rightarrow>
     (case ToTensor lib img3 of
        Inl e \<Rightarrow> Inl e
      | Inr img4 \<Rightarrow>
     (case Normalize lib img4 of
        Inl e \<Rightarrow> Inl e
      | Inr out \<Rightarrow> Inr (out, r)))))))"

definition frame_transform ::
  "('x, 'r) torchvision \<Rightarrow> int \<Rightarrow> bool \<Rightarrow> 'r \<Rightarrow> frame \<Rightarrow> error + ('x \<times> 'r)" where
  "frame_transform lib frame_size is_train =
     (if is_train then train_transform lib frame_size else eval_transform lib frame_size)"

text \<open>
  The list comprehension over the frames of the clip: the frames are transformed in
  order, and the first one on which the pipeline raises ends the call.
\<close>

fun map_frames ::
  "('r \<Rightarrow> frame \<Rightarrow> error + ('o \<times> 'r)) \<Rightarrow> frame list \<Rightarrow> 'r \<Rightarrow> error + ('o list \<times> 'r)" where
  "map_frames ft [] r = Inr ([], r)"
| "map_frames ft (fr # frs) r =
     (case ft r fr of
        Inl e \<Rightarrow> Inl e
      | Inr (out, r1) \<Rightarrow>
          (case map_frames ft frs r1 of
             Inl e \<Rightarrow> Inl e
           | Inr (outs, r2) \<Rightarrow> Inr (out # outs, r2)))"

text \<open>
  \<^verbatim>\<open>apply_frame_transform\<close>, with the values it closes over (\<open>n_frames\<close>,
  \<open>take_every_nth\<close> and the pipeline) as arguments. The sample is a triple of which only
  the clip is used. \<^verbatim>\<open>torch.cat\<close> of the transformed frames is the list of them, and it
  refuses an empty list with \<open>RuntimeError\<close>.
\<close>

definition apply_frame_transform ::
  "('r \<Rightarrow> frame \<Rightarrow> error + ('o \<times> 'r)) \<Rightarrow> int \<Rightarrow> int \<Rightarrow> video_tensor \<times> 'a \<times> 'b \<Rightarrow> 'r
     \<Rightarrow> error + ('o list \<times> 'r)" where
  "apply_frame_transform ft n_frames take_every_nth smp r =
     (case smp of (video, _, _) \<Rightarrow>
        (let video1 = permute_0312 video
         in (case temporal_sample take_every_nth n_frames (clip video1) of
               Inl e \<Rightarrow> Inl e
             | Inr frs \<Rightarrow>
                 (case map_frames ft (pad_frames n_frames (dims video1) frs) r of
                    Inl e \<Rightarrow> Inl e
                  | Inr ([], r1) \<Rightarrow> Inl RuntimeError
                  | Inr (out # outs, r1) \<Rightarrow> Inr (out # outs, r1)))))"

text \<open>
  \<^verbatim>\<open>video_transform\<close>: the transform it returns, for the library's transforms \<open>lib\<close>.
\<close>

definition video_transform ::
  "('x, 'r) torchvision \<Rightarrow> int \<Rightarrow> int \<Rightarrow> int \<Rightarrow> bool \<Rightarrow> video_tensor \<times> 'a \<times> 'b \<Rightarrow> 'r
     \<Rightarrow> error + ('x list \<times> 'r)" where
  "video_transform lib frame_size n_frames take_every_nth is_train =
     apply_frame_transform (frame_transform lib frame_size is_train) n_frames take_every_nth"

section \<open>Example inputs\<close>

text \<open>
  Concrete inputs on which the theorems below are instantiated: a counter as random
  source, a sample with two 2 x 2 single-channel frames and its metadata, a resizer with
  the default keys, a clip of three 1 x 1 frames and one of twenty, and library transforms
  that leave an image as it is, except that normalising adds 1 to every value.
\<close>

definition demo_gen :: "nat \<Rightarrow> nat \<times> nat" where
  "demo_gen s = (s, Suc s)"

definition demo_frames :: "frame list" where
  "demo_frames = [[[[0], [255]], [[51], [102]]], [[[255], [0]], [[102], [51]]]]"

definition demo_sample :: sample where
  "demo_sample =
     ((Map.empty(''mp4'' \<mapsto> Frames demo_frames))
        (''original_height'' \<mapsto> Meta [2]))(''original_width'' \<mapsto> Meta [2])"

definition demo_resizer :: "size_arg option \<Rightarrow> size_arg option \<Rightarrow> bool \<Rightarrow> video_resizer" where
  "demo_resizer size' crop' rc =
     VideoResizer_init size' crop' rc ''mp4'' ''original_width'' ''original_height''"

definition demo_clip3 :: video_tensor where
  "demo_clip3 = \<lparr>dims = (1, 1, 1), clip = [[[[10]]], [[[20]]], [[[30]]]]\<rparr>"

definition demo_clip20 :: "frame list" where
  "demo_clip20 =
     [[[[0]]], [[[1]]], [[[2]]], [[[3]]], [[[4]]], [[[5]]], [[[6]]], [[[7]]], [[[8]]], [[[9]]],
      [[[10]]], [[[11]]], [[[12]]], [[[13]]], [[[14]]], [[[15]]], [[[16]]], [[[17]]], [[[18]]],
      [[[19]]]]"

definition demo_lib :: "(frame, nat) torchvision" where
  "demo_lib =
     \<lparr>ToPILImage = Inr,
      draw_unit = (\<lambda>r. (1 / 2, Suc r)),
      crop_resized = (\<lambda>_ _ r img. Inr (img, r)),
      Resize = (\<lambda>_. Inr),
      CenterCrop = (\<lambda>_. Inr),
      convert_to_rgb = Inr,
      ToTensor = Inr,
      Normalize = (\<lambda>img. Inr (map (map (map (\<lambda>v. v + 1))) img))\<rparr>"

section \<open>Auxiliary lemmas\<close>

lemma py_round_simps: "py_round 1 = 1" "py_round 2 = 2" "py_round (1/2) = 0"
  by (simp_all add: py_round_def Let_def)

lemma py_slice_ex: "py_slice (- 1) 3 [a, b] = [b]"
  by (simp add: py_slice_def slice_index_def)

lemma demo_resizer_fields:
  "key (demo_resizer sz cr rc) = ''mp4''"
  "height_key (demo_resizer sz cr rc) = ''original_height''"
  "width_key (demo_resizer sz cr rc) = ''original_width''"
  "resize_size (demo_resizer sz cr rc) = sz"
  "crop_size (demo_resizer sz (Some (Scalar c)) rc) = Some (c, c)"
  "crop_size (demo_resizer sz (Some (Pair a b)) rc) = Some (a, b)"
  "crop_size (demo_resizer sz None rc) = None"
  "random_crop (demo_resizer sz (Some cr') rc) = rc"
  "random_crop (demo_resizer sz None rc) = False"
  by (simp_all add: demo_resizer_def VideoResizer_init_def Let_def split: size_arg.splits)

lemma demo_sample_fields:
  "demo_sample ''mp4'' = Some (Frames demo_frames)"
  "first_item demo_sample ''original_height'' = Inr 2"
  "first_item demo_sample ''original_width'' = Inr 2"
  by (simp_all add: demo_sample_def first_item_def)

lemma frames_loop_append:
  "frames_loop rsz self rs ref frs acc =
     (if list_ex (cv2_raises rs) frs then Inl Cv2Error
      else Inr (acc @ map (transform_frame rsz self rs ref) frs))"
  by (induction frs arbitrary: acc) simp_all

lemma stack_frames_result: "stack_frames err frs = Inr out \<Longrightarrow> out = frs \<and> frs \<noteq> []"
  by (auto simp: stack_frames_def split: list.splits if_splits)

lemma randint_range:
  assumes "randint gen low high s = Inr (v, s')"
  shows "low \<le> v \<and> v < high \<and> s' = snd (gen s)"
proof -
  from assms have lt: "low < high"
    by (simp add: randint_def split: if_splits)
  obtain r t where g: "gen s = (r, t)" by (cases "gen s")
  from assms lt g have v: "v = low + int r mod (high - low)" and s': "s' = t"
    by (simp_all add: randint_def)
  from lt have "0 \<le> int r mod (high - low)" "int r mod (high - low) < high - low"
    by simp_all
  with v s' g show ?thesis by simp
qed

lemma get_rand_reference_state:
  assumes "get_rand_reference gen self rs h w s = Inr (ref, s')"
  shows "s' = snd (gen (snd (gen s)))"
proof -
  from assms obtain lx hx ly hy x s1 y where
    x: "randint gen lx hx s = Inr (x, s1)" and y: "randint gen ly hy s1 = Inr (y, s')"
    by (auto simp: get_rand_reference_def Let_def split: option.splits if_splits sum.splits prod.splits)
  from randint_range [OF x] randint_range [OF y] show ?thesis by simp
qed

lemma get_reference_frame_state:
  assumes "get_reference_frame gen self rs h w s = Inr (ref, s')"
  shows "s' = (if random_crop self then snd (gen (snd (gen s))) else s)"
  using assms by (auto simp: get_reference_frame_def dest: get_rand_reference_state split: if_splits)

lemma frames_of_Inr: "frames_of v = Inr frs \<longleftrightarrow> v = Frames frs"
  by (cases v) (simp_all add: frames_of_def)

lemma randint_attains:
  assumes "low \<le> v" and "v < high" and "gen s = (nat (v - low), s')"
  shows "randint gen low high s = Inr (v, s')"
proof -
  from assms(1,2) have "int (nat (v - low)) mod (high - low) = v - low" by simp
  with assms show ?thesis by (simp add: randint_def)
qed

lemma bumped_bound:
  fixes lo dim v :: int
  assumes "lo \<le> v" and "v < (if lo = dim - lo then min (dim - lo + 1) dim else dim - lo)"
  shows "v \<le> dim - lo"
  using assms by (auto split: if_splits)

lemma length_every_nth:
  "0 < k \<Longrightarrow> length (every_nth k xs) = (length xs + k - 1) div k"
proof (induction k xs rule: every_nth.induct)
  case (1 k)
  then show ?case by simp
next
  case (2 k x xs)
  show ?case
  proof (cases "k - 1 \<le> length xs")
    case True
    with 2 have "length (every_nth k (x # xs)) = Suc (length xs div k)"
      by simp
    also have "\<dots> = (length xs + k) div k"
      using 2(2) by simp
    finally show ?thesis by simp
  next
    case False
    then have "length xs + k < 2 * k" "k \<le> length xs + k" by simp_all
    then have "(length xs + k) div k = 1"
      by (intro div_nat_eqI) simp_all
    with False show ?thesis by simp
  qed
qed

lemma nth_every_nth:
  "0 < k \<Longrightarrow> i < length (every_nth k xs) \<Longrightarrow> every_nth k xs ! i = xs ! (i * k)"
proof (induction k xs arbitrary: i rule: every_nth.induct)
  case (1 k)
  then show ?case by simp
next
  case (2 k x xs)
  show ?case
  proof (cases i)
    case 0
    then show ?thesis by simp
  next
    case (Suc j)
    with 2(3) have j: "j < length (every_nth k (drop (k - 1) xs))" by simp
    then have ne: "drop (k - 1) xs \<noteq> []" by auto
    then have le: "k - 1 \<le> length xs" by simp
    from 2(1) [OF 2(2) j] have "every_nth k (drop (k - 1) xs) ! j = drop (k - 1) xs ! (j * k)" .
    also have "\<dots> = xs ! (k - 1 + j * k)" using le by simp
    also have "\<dots> = (x # xs) ! (Suc j * k)"
    proof -
      from 2(2) have "Suc j * k = Suc (k - 1 + j * k)" by simp
      then show ?thesis by simp
    qed
    finally show ?thesis using Suc by simp
  qed
qed

lemma py_slice_prefix: "0 \<le> n \<Longrightarrow> py_slice 0 n xs = take (nat n) xs"
  by (simp add: py_slice_def slice_index_def Let_def min_def)

lemma py_round_nearest: "\<bar>real_of_int (py_round x) - x\<bar> \<le> 1 / 2"
proof -
  have "real_of_int \<lfloor>x\<rfloor> \<le> x" "x < real_of_int \<lfloor>x\<rfloor> + 1" by linarith+
  then show ?thesis by (auto simp: py_round_def Let_def)
qed

lemma py_round_tie_even: "x - real_of_int \<lfloor>x\<rfloor> = 1 / 2 \<Longrightarrow> even (py_round x)"
  by (auto simp: py_round_def Let_def)

lemma py_round_of_int: "py_round (real_of_int k) = k"
  by (simp add: py_round_def Let_def)

lemma two_powr_powi: "(2::real) powr real_of_int k = 2 powi k"
  by (simp add: powr_int power_int_def power_one_over)

lemma floor_log2_bounds:
  assumes "x \<noteq> 0"
  shows "(2::real) powi \<lfloor>log 2 \<bar>x\<bar>\<rfloor> \<le> \<bar>x\<bar>" and "\<bar>x\<bar> < 2 powi (\<lfloor>log 2 \<bar>x\<bar>\<rfloor> + 1)"
proof -
  from assms have pos: "0 < \<bar>x\<bar>" by simp
  have "2 powr real_of_int \<lfloor>log 2 \<bar>x\<bar>\<rfloor> \<le> \<bar>x\<bar> \<and> \<bar>x\<bar> < 2 powr (real_of_int \<lfloor>log 2 \<bar>x\<bar>\<rfloor> + 1)"
    using floor_log_eq_powr_iff [of "\<bar>x\<bar>" 2 "\<lfloor>log 2 \<bar>x\<bar>\<rfloor>"] pos by simp
  then show "(2::real) powi \<lfloor>log 2 \<bar>x\<bar>\<rfloor> \<le> \<bar>x\<bar>" and "\<bar>x\<bar> < 2 powi (\<lfloor>log 2 \<bar>x\<bar>\<rfloor> + 1)"
    using two_powr_powi [of "\<lfloor>log 2 \<bar>x\<bar>\<rfloor>"] two_powr_powi [of "\<lfloor>log 2 \<bar>x\<bar>\<rfloor> + 1"] by simp_all
qed

lemma two_powi_less_imp: "(2::real) powi a < 2 powi b \<Longrightarrow> a < b"
proof (rule ccontr)
  assume lt: "(2::real) powi a < 2 powi b" and "\<not> a < b"
  then have "b \<le> a" by simp
  then have "(2::real) powi b \<le> 2 powi a" by (intro power_int_increasing) simp_all
  with lt show False by simp
qed

lemma powi_le_abs_nonzero:
  assumes "(2::real) powi m \<le> \<bar>x\<bar>"
  shows "x \<noteq> 0"
proof
  assume "x = 0"
  then have z: "\<bar>x\<bar> = 0" by simp
  have p: "(0::real) < 2 powi m" by (rule zero_less_power_int) simp
  from assms z p show False by linarith
qed

lemma floor_log2_ge:
  assumes "(2::real) powi m \<le> \<bar>x\<bar>"
  shows "m \<le> \<lfloor>log 2 \<bar>x\<bar>\<rfloor>"
proof -
  have nz: "x \<noteq> 0" using assms by (rule powi_le_abs_nonzero)
  from assms floor_log2_bounds(2) [OF nz] have "(2::real) powi m < 2 powi (\<lfloor>log 2 \<bar>x\<bar>\<rfloor> + 1)"
    by (rule le_less_trans)
  then have "m < \<lfloor>log 2 \<bar>x\<bar>\<rfloor> + 1" by (rule two_powi_less_imp)
  then show ?thesis by linarith
qed

lemma floor_log2_less:
  assumes "x \<noteq> 0" and "\<bar>x\<bar> < 2 powi m"
  shows "\<lfloor>log 2 \<bar>x\<bar>\<rfloor> < m"
proof -
  from floor_log2_bounds(1) [OF assms(1)] assms(2)
  have "(2::real) powi \<lfloor>log 2 \<bar>x\<bar>\<rfloor> < 2 powi m" by (rule le_less_trans)
  then show ?thesis by (rule two_powi_less_imp)
qed

lemma two_powi_pred: "(2::real) powi (d - 53) = 2 powi (d - 52) / 2"
proof -
  have "(2::real) powi (d - 52 - 1) = 2 powi (d - 52) / 2 powi 1"
    by (rule power_int_diff) simp
  moreover have "d - 52 - 1 = d - 53" by simp
  ultimately show ?thesis by simp
qed

lemma two_powi_sub53: "(2::real) powi (d - 53) = 2 powi d / 2 ^ 53"
proof -
  have "(2::real) powi (d - 53) = 2 powi d / 2 powi 53"
    by (rule power_int_diff) simp
  then show ?thesis by simp
qed

lemma double_round_spacing:
  "\<bar>double_round x - x\<bar> \<le> 2 powi (double_exponent x - 53)"
proof (cases "x = 0")
  case True
  then show ?thesis by (simp add: double_round_def)
next
  case False
  define u :: real where "u = 2 powi (double_exponent x - 52)"
  define k where "k = py_round (x / u)"
  have u: "0 < u" by (simp add: u_def)
  have "\<bar>real_of_int k - x / u\<bar> \<le> 1 / 2" unfolding k_def by (rule py_round_nearest)
  then have "\<bar>real_of_int k - x / u\<bar> * u \<le> 1 / 2 * u"
    using u by (intro mult_right_mono) simp_all
  moreover have "\<bar>real_of_int k - x / u\<bar> * u = \<bar>real_of_int k * u - x\<bar>"
  proof -
    have "\<bar>real_of_int k - x / u\<bar> * u = \<bar>(real_of_int k - x / u) * u\<bar>"
      using u by (simp add: abs_mult)
    also have "(real_of_int k - x / u) * u = real_of_int k * u - x"
      using u by (simp add: left_diff_distrib)
    finally show ?thesis .
  qed
  moreover have "1 / 2 * u = 2 powi (double_exponent x - 53)"
    unfolding u_def two_powi_pred by simp
  moreover have "double_round x = real_of_int k * u"
    using False by (simp add: double_round_def u_def k_def)
  ultimately show ?thesis by simp
qed

lemma double_round_of_int:
  assumes "\<bar>n\<bar> < 2 ^ 53"
  shows "double_round (real_of_int n) = real_of_int n"
proof (cases "n = 0")
  case True
  then show ?thesis by (simp add: double_round_def)
next
  case False
  let ?x = "real_of_int n"
  let ?e = "\<lfloor>log 2 \<bar>?x\<bar>\<rfloor>"
  have nz: "?x \<noteq> 0" using False by simp
  have "1 \<le> \<bar>n\<bar>" using False by simp
  then have "1 \<le> \<bar>?x\<bar>" by (metis of_int_abs of_int_1_le_iff)
  then have "(2::real) powi 0 \<le> \<bar>?x\<bar>" by simp
  then have e0: "0 \<le> ?e" by (rule floor_log2_ge)
  have "\<bar>?x\<bar> < 2 ^ 53" using assms by (metis of_int_abs of_int_less_numeral_power_cancel_iff)
  then have "\<bar>?x\<bar> < 2 powi 53" by simp
  with nz have "?e < 53" by (rule floor_log2_less)
  then have e52: "?e \<le> 52" by simp
  from e0 have "- 1022 \<le> ?e" by simp
  then have de: "double_exponent ?x = ?e" unfolding double_exponent_def by (rule max_absorb1)
  define k where "k = nat (52 - ?e)"
  have "(2::real) powi (?e - 52) = 2 powi (- int k)" using e52 by (simp add: k_def)
  also have "\<dots> = 1 / 2 ^ k" by (simp add: power_int_minus_divide)
  finally have u: "(2::real) powi (?e - 52) = 1 / 2 ^ k" .
  have "?x / (1 / 2 ^ k) = real_of_int (n * 2 ^ k)" by simp
  then have "py_round (?x / (1 / 2 ^ k)) = n * 2 ^ k"
    using py_round_of_int [of "n * 2 ^ k"] by simp
  then have "real_of_int (py_round (?x / (1 / 2 ^ k))) * (1 / 2 ^ k) = ?x" by simp
  then show ?thesis using nz unfolding double_round_def de u by simp
qed

lemma double_round_error_general:
  "\<bar>double_round x - x\<bar> \<le> \<bar>x\<bar> / 2 ^ 53 + 2 powi (- 1075)"
proof (cases "x = 0")
  case True
  then show ?thesis by (simp add: double_round_def)
next
  case False
  let ?e = "\<lfloor>log 2 \<bar>x\<bar>\<rfloor>"
  have tiny: "(0::real) \<le> 2 powi (- 1075)" by (rule zero_le_power_int) simp
  have frac: "0 \<le> \<bar>x\<bar> / 2 ^ 53" by simp
  show ?thesis
  proof (cases "- 1022 \<le> ?e")
    case True
    then have de: "double_exponent x = ?e" unfolding double_exponent_def by (rule max_absorb1)
    have "2 powi (?e - 53) = 2 powi ?e / (2::real) ^ 53" by (rule two_powi_sub53)
    also have "\<dots> \<le> \<bar>x\<bar> / 2 ^ 53"
      using floor_log2_bounds(1) [OF False] by (intro divide_right_mono) simp_all
    finally have "\<bar>double_round x - x\<bar> \<le> \<bar>x\<bar> / 2 ^ 53"
      using double_round_spacing [of x] unfolding de by (rule order_trans [rotated])
    with tiny show ?thesis by linarith
  next
    case False
    then have "?e \<le> - 1022" by simp
    then have de: "double_exponent x = - 1022" unfolding double_exponent_def by (rule max_absorb2)
    have "(- 1022::int) - 53 = - 1075" by simp
    with double_round_spacing [of x] have "\<bar>double_round x - x\<bar> \<le> 2 powi (- 1075)"
      unfolding de by simp
    with frac show ?thesis by linarith
  qed
qed

lemma tiny_le_one: "(2::real) powi (- 1075) \<le> 1"
proof -
  have "(2::real) powi (- 1075) \<le> 2 powi 0" by (rule power_int_increasing) simp_all
  then show ?thesis by simp
qed

lemma to_double_bounded:
  assumes "\<bar>x\<bar> \<le> 2 ^ 110"
  shows "to_double x = Inr (double_round x)"
proof -
  have "\<bar>double_round x\<bar> \<le> \<bar>x\<bar> + \<bar>double_round x - x\<bar>" by linarith
  also have "\<dots> \<le> \<bar>x\<bar> + (\<bar>x\<bar> / 2 ^ 53 + 2 powi (- 1075))"
    using double_round_error_general [of x] by linarith
  also have "\<dots> \<le> \<bar>x\<bar> + (\<bar>x\<bar> + 1)"
  proof -
    have "\<bar>x\<bar> / 2 ^ 53 \<le> \<bar>x\<bar>" by (simp add: field_simps)
    with tiny_le_one show ?thesis by linarith
  qed
  also have "\<dots> \<le> 2 ^ 110 + (2 ^ 110 + 1)" using assms by linarith
  also have "\<dots> < (2::real) ^ 112" by simp
  also have "\<dots> \<le> 2 ^ 1024" by (rule power_increasing) simp_all
  finally have "\<not> 2 ^ 1024 \<le> \<bar>double_round x\<bar>" by (simp only: not_le)
  then show ?thesis unfolding to_double_def by (rule if_not_P)
qed

lemma double_round_eq:
  assumes "(2::real) powi e \<le> \<bar>x\<bar>" and "\<bar>x\<bar> < 2 powi (e + 1)" and "- 1022 \<le> e"
  shows "double_round x = real_of_int (py_round (x / 2 powi (e - 52))) * 2 powi (e - 52)"
proof -
  have nz: "x \<noteq> 0" using assms(1) by (rule powi_le_abs_nonzero)
  from floor_log2_ge [OF assms(1)] floor_log2_less [OF nz assms(2)]
  have "\<lfloor>log 2 \<bar>x\<bar>\<rfloor> = e" by linarith
  with assms(3) have "double_exponent x = e" by (simp add: double_exponent_def)
  with nz show ?thesis by (simp add: double_round_def)
qed

lemma resize_dims_50_100_200:
  "py_round (double_round (real_of_int 100 * double_round (real_of_int 50 / real_of_int (min 100 200)))) = 50"
  "py_round (double_round (real_of_int 200 * double_round (real_of_int 50 / real_of_int (min 100 200)))) = 100"
proof -
  have a: "double_round (real_of_int 50 / real_of_int (min 100 200)) = 1 / 2"
    using double_round_eq [of "- 1" "real_of_int 50 / real_of_int (min 100 200)"]
    by (simp add: py_round_def Let_def)
  have b: "double_round (real_of_int 100 * (1 / 2)) = 50"
    using double_round_eq [of 5 "real_of_int 100 * (1 / 2)"]
    by (simp add: py_round_def Let_def)
  have c: "double_round (real_of_int 200 * (1 / 2)) = 100"
    using double_round_eq [of 6 "real_of_int 200 * (1 / 2)"]
    by (simp add: py_round_def Let_def)
  show "py_round (double_round (real_of_int 100 * double_round (real_of_int 50 / real_of_int (min 100 200)))) = 50"
    unfolding a b by (simp add: py_round_def Let_def)
  show "py_round (double_round (real_of_int 200 * double_round (real_of_int 50 / real_of_int (min 100 200)))) = 100"
    unfolding a c by (simp add: py_round_def Let_def)
qed

lemma resize_dims_224_320_325:
  "py_round (double_round (real_of_int 320 * double_round (real_of_int 224 / real_of_int (min 320 325)))) = 224"
  "py_round (double_round (real_of_int 325 * double_round (real_of_int 224 / real_of_int (min 320 325)))) = 227"
proof -
  have a: "double_round (real_of_int 224 / real_of_int (min 320 325)) = 6305039478318694 / 2 ^ 53"
    using double_round_eq [of "- 1" "real_of_int 224 / real_of_int (min 320 325)"]
    by (simp add: py_round_def Let_def)
  have b: "double_round (real_of_int 320 * (6305039478318694 / 2 ^ 53)) = 224"
    using double_round_eq [of 7 "real_of_int 320 * (6305039478318694 / 2 ^ 53)"]
    by (simp add: py_round_def Let_def)
  have c: "double_round (real_of_int 325 * (6305039478318694 / 2 ^ 53)) = 8004444650209279 / 2 ^ 45"
    using double_round_eq [of 7 "real_of_int 325 * (6305039478318694 / 2 ^ 53)"]
    by (simp add: py_round_def Let_def)
  show "py_round (double_round (real_of_int 320 * double_round (real_of_int 224 / real_of_int (min 320 325)))) = 224"
    unfolding a b by (simp add: py_round_def Let_def)
  show "py_round (double_round (real_of_int 325 * double_round (real_of_int 224 / real_of_int (min 320 325)))) = 227"
    unfolding a c by (simp add: py_round_def Let_def)
qed

lemma resize_dims_299_1200_800:
  "py_round (double_round (real_of_int 1200 * double_round (real_of_int 299 / real_of_int (min 1200 800)))) = 449"
  "py_round (double_round (real_of_int 800 * double_round (real_of_int 299 / real_of_int (min 1200 800)))) = 299"
proof -
  have a: "double_round (real_of_int 299 / real_of_int (min 1200 800)) = 6732881442918892 / 2 ^ 54"
    using double_round_eq [of "- 2" "real_of_int 299 / real_of_int (min 1200 800)"]
    by (simp add: py_round_def Let_def)
  have b: "double_round (real_of_int 1200 * (6732881442918892 / 2 ^ 54)) = 7890095440920577 / 2 ^ 44"
    using double_round_eq [of 8 "real_of_int 1200 * (6732881442918892 / 2 ^ 54)"]
    by (simp add: py_round_def Let_def)
  have c: "double_round (real_of_int 800 * (6732881442918892 / 2 ^ 54)) = 299"
    using double_round_eq [of 8 "real_of_int 800 * (6732881442918892 / 2 ^ 54)"]
    by (simp add: py_round_def Let_def)
  show "py_round (double_round (real_of_int 1200 * double_round (real_of_int 299 / real_of_int (min 1200 800)))) = 449"
    unfolding a b by (simp add: py_round_def Let_def)
  show "py_round (double_round (real_of_int 800 * double_round (real_of_int 299 / real_of_int (min 1200 800)))) = 299"
    unfolding a c by (simp add: py_round_def Let_def)
qed

lemma int_times_float_bounded:
  assumes h: "\<bar>n\<bar> < 2 ^ 53" and f: "\<bar>f\<bar> \<le> 2 ^ 55"
  shows "int_times_float n f = Inr (double_round (real_of_int n * f))"
proof -
  have n': "\<bar>real_of_int n\<bar> < 2 ^ 53"
    using h by (metis of_int_abs of_int_less_numeral_power_cancel_iff)
  then have "\<bar>real_of_int n\<bar> \<le> 2 ^ 110" by simp
  then have c: "to_double (real_of_int n) = Inr (real_of_int n)"
    using to_double_bounded [of "real_of_int n"] double_round_of_int [OF h] by simp
  have "\<bar>real_of_int n * f\<bar> = \<bar>real_of_int n\<bar> * \<bar>f\<bar>" by (rule abs_mult)
  also have "\<dots> \<le> 2 ^ 53 * 2 ^ 55"
    using n' f by (intro mult_mono) simp_all
  also have "\<dots> \<le> (2::real) ^ 110" by simp
  finally have "to_double (real_of_int n * f) = Inr (double_round (real_of_int n * f))"
    by (rule to_double_bounded)
  with c show ?thesis by (simp add: int_times_float_def)
qed

lemma center_reference: "\<not> random_crop self \<Longrightarrow>
    get_reference_frame gen self rs h w s = Inr ((h div 2, w div 2), s)"
  by (simp add: get_reference_frame_def)

lemma center_call_state_free:
  assumes "\<not> random_crop self"
  shows "VideoResizer_call gen rsz f16 self data s
     = map_sum id (\<lambda>out. (fst out, s)) (VideoResizer_call gen' rsz f16 self data s0)"
  unfolding VideoResizer_call_def center_reference [OF assms]
  by (simp split: option.splits sum.splits prod.splits val.splits)

lemma frame_item_error: "frame_item err fr = Inl e \<Longrightarrow> e = err"
  by (simp add: frame_item_def split: list.splits)

lemma first_item_no_assert: "first_item data k \<noteq> Inl AssertionError"
  by (auto simp: first_item_def split: option.splits val.splits list.splits
      dest: frame_item_error)

lemma first_elem_no_assert: "first_elem v \<noteq> Inl AssertionError"
  by (simp add: first_elem_def split: val.splits list.splits)

lemma to_double_error: "to_double x = Inl e \<Longrightarrow> e = OverflowError"
  by (simp add: to_double_def split: if_splits)

lemma int_times_float_error: "int_times_float n f = Inl e \<Longrightarrow> e = OverflowError"
  by (auto simp: int_times_float_def split: sum.splits dest: to_double_error)

lemma get_resize_size_error:
  "get_resize_size self fr oh ow = Inl e \<Longrightarrow> e = ZeroDivisionError \<or> e = OverflowError"
  by (auto simp: get_resize_size_def Let_def split: option.splits size_arg.splits sum.splits if_splits
      dest: to_double_error int_times_float_error)

lemma get_resize_size_no_assert: "get_resize_size self fr oh ow \<noteq> Inl AssertionError"
  using get_resize_size_error [of self fr oh ow AssertionError] by auto

lemma resize_size_of_first_no_assert: "resize_size_of_first self el oh ow \<noteq> Inl AssertionError"
  by (simp add: resize_size_of_first_def get_resize_size_no_assert split: elem.splits)

lemma stack_frames_error: "stack_frames err frs = Inl e \<Longrightarrow> e = err"
  by (auto simp: stack_frames_def split: list.splits if_splits)

lemma loop_error_no_assert: "loop_error rs \<noteq> AssertionError"
  by (simp add: loop_error_def)

lemma frames_loop_error: "frames_loop rsz self rs ref frs acc = Inl e \<Longrightarrow> e = Cv2Error"
  by (simp add: frames_loop_append split: if_splits)

lemma frames_loop_result:
  "frames_loop rsz self rs ref frs [] = Inr out \<Longrightarrow> out = map (transform_frame rsz self rs ref) frs"
  by (simp add: frames_loop_append split: if_splits)

lemma cv2_raises_None: "cv2_raises None fr = False"
  by (simp add: cv2_raises_def)

lemma demo_frames_stack: "stack_frames err [[[[a], [b]], [[c], [d]]], [[[e], [f]], [[g], [h]]]]
    = Inr [[[[a], [b]], [[c], [d]]], [[[e], [f]], [[g], [h]]]]"
  by (simp add: stack_frames_def frame_dims_def)

lemma first_elem_frames: "first_elem (Frames (fr # frs)) = Inr (FrameElem fr)"
  by (simp add: first_elem_def)

lemma demo_crop_whole:
  "resize_crop_frame (\<lambda>_ fr. fr) (demo_resizer None (Some (Scalar 2)) rc) None (1, 1)
     [[a, b], [c, d]] = [[a, b], [c, d]]"
  by (simp add: resize_crop_frame_def demo_resizer_fields py_round_simps py_slice_def slice_index_def)

lemma demo_rand_reference:
  "get_reference_frame demo_gen (demo_resizer None (Some (Scalar 2)) True) None 2 2 0
     = Inr ((1, 1), 2)"
  by (simp add: get_reference_frame_def get_rand_reference_def demo_resizer_fields randint_def
      demo_gen_def)

lemma demo_shape_size:
  "get_resize_size (demo_resizer None cr rc) [[a, b], [c, d]] oh ow = Inr (None, (2, 2))"
  by (simp add: get_resize_size_def demo_resizer_fields frame_shape_def)

lemma demo_rand_call:
  "\<exists>d. VideoResizer_call demo_gen (\<lambda>_ fr. fr) (\<lambda>v. v)
        (demo_resizer None (Some (Scalar 2)) True) demo_sample 0 = Inr (d, 2)"
  by (simp add: VideoResizer_call_def demo_resizer_fields demo_sample_fields frames_of_def
      first_elem_frames resize_size_of_first_def torch_stack_def demo_frames_def demo_shape_size
      demo_rand_reference cv2_raises_None transform_frame_def demo_crop_whole demo_frames_stack)

lemma demo_center_call:
  "VideoResizer_call demo_gen (\<lambda>_ fr. fr) (\<lambda>v. v)
        (demo_resizer (Some (Pair 2 2)) (Some (Pair 4 4)) False) demo_sample 0
   = Inr (demo_sample(''mp4'' \<mapsto> Stacked Float16 [[[[- (1 / 5)]]], [[[- (3 / 5)]]]]), 0)"
  by (simp add: VideoResizer_call_def demo_resizer_fields demo_sample_fields first_elem_frames
      resize_size_of_first_def frames_of_def torch_stack_def stack_frames_def frame_dims_def
      demo_frames_def get_resize_size_def get_reference_frame_def cv2_raises_def
      transform_frame_def resize_crop_frame_def py_slice_ex rescale_def py_round_simps)

lemma demo_resize_call:
  "VideoResizer_call demo_gen (\<lambda>_ fr. fr) (\<lambda>v. v)
        (demo_resizer (Some (Pair 2 2)) None False) demo_sample 7
   = Inr (demo_sample(''mp4'' \<mapsto> Stacked Float16
            [[[[- 1], [1]], [[- (3 / 5)], [- (1 / 5)]]],
             [[[1], [- 1]], [[- (1 / 5)], [- (3 / 5)]]]]), 7)"
  by (simp add: VideoResizer_call_def demo_resizer_fields demo_sample_fields frames_of_def
      first_elem_frames resize_size_of_first_def torch_stack_def demo_frames_stack
      demo_frames_def get_resize_size_def get_reference_frame_def cv2_raises_def
      transform_frame_def resize_crop_frame_def rescale_def)

lemma train_transform_raises: "\<exists>e. train_transform lib frame_size r fr = Inl e"
  by (simp add: train_transform_def RandomResizedCrop_def torch_uniform_def split: sum.splits)

lemma map_frames_first_raises:
  assumes "\<And>r fr. \<exists>e. ft r fr = Inl e"
  shows "map_frames ft frs r = Inr out \<Longrightarrow> frs = [] \<and> out = ([], r)"
proof (cases frs)
  case Nil
  assume "map_frames ft frs r = Inr out"
  with Nil show ?thesis by simp
next
  case (Cons fr frs')
  assume a: "map_frames ft frs r = Inr out"
  from assms [of r fr] obtain e where "ft r fr = Inl e" ..
  with a Cons show ?thesis by simp
qed

lemma length_map_frames:
  "map_frames ft frs r = Inr (outs, r') \<Longrightarrow> length outs = length frs"
proof (induction frs arbitrary: r outs)
  case Nil
  then show ?case by simp
next
  case (Cons fr frs)
  from Cons.prems obtain out r1 outs' where
    f: "ft r fr = Inr (out, r1)" and m: "map_frames ft frs r1 = Inr (outs', r')"
    and o: "outs = out # outs'"
    by (auto split: sum.splits prod.splits)
  from Cons.IH [OF m] o show ?case by simp
qed

lemma demo_permute:
  "permute_0312 demo_clip3 = \<lparr>dims = (1, 1, 1), clip = [[[[10]]], [[[20]]], [[[30]]]]\<rparr>"
  by (simp add: permute_0312_def permute_frame_def demo_clip3_def)

lemma demo_sampled:
  "temporal_sample 1 5 [[[[10]]], [[[20]]], [[[30::real]]]] = Inr [[[[10]]], [[[20]]], [[[30]]]]"
  by (simp add: temporal_sample_def strided_def py_slice_def slice_index_def)

lemma demo_padded:
  "pad_frames 5 (Suc 0, Suc 0, Suc 0) [[[[10]]], [[[20]]], [[[30]]]]
     = [[[[10]]], [[[20]]], [[[30]]], [[[0]]], [[[0]]]]"
  by (simp add: pad_frames_def zeros_def numeral_eq_Suc)

lemma demo_train_transform: "train_transform demo_lib 224 r fr = Inl RuntimeError"
  by (simp add: train_transform_def RandomResizedCrop_def torch_uniform_def demo_lib_def)

lemma demo_eval_transform:
  "eval_transform demo_lib 224 r fr = Inr (map (map (map (\<lambda>v. v + 1))) fr, r)"
  by (simp add: eval_transform_def demo_lib_def)

section \<open>Properties of VideoResizer\<close>

text \<open>
  C1. Same-clip consistency. When resize and/or crop is configured and the call returns,
  the resize size \<open>rs\<close> comes from one call of \<open>get_resize_size\<close> on the first frame and
  the metadata, the reference \<open>ref\<close> from one call of \<open>get_reference_frame\<close> on the
  generator state the call started with, both before the loop; the generator has then made
  two draws (random crop) or none, however many frames there are; and the video field is
  the stack of every frame of the clip transformed with that one \<open>rs\<close> and that one
  \<open>ref\<close>.
\<close>

theorem same_clip_consistency:
  assumes call: "VideoResizer_call gen rsz f16 self data s = Inr (data', s')"
    and cfg: "\<not> (crop_size self = None \<and> resize_size self = None)"
  shows "\<exists>v frs oh ow rs h w ref.
           data (key self) = Some v \<and> frames_of v = Inr frs \<and> frs \<noteq> []
         \<and> first_item data (height_key self) = Inr oh
         \<and> first_item data (width_key self) = Inr ow
         \<and> get_resize_size self (hd frs) oh ow = Inr (rs, (h, w))
         \<and> get_reference_frame gen self rs h w s = Inr (ref, s')
         \<and> s' = (if random_crop self then snd (gen (snd (gen s))) else s)
         \<and> data' = data(key self \<mapsto>
              Stacked Float16 (map (\<lambda>fr. map (map (map f16)) (transform_frame rsz self rs ref fr)) frs))"
proof -
  from call cfg obtain v oh ow el frs rs h w ref result stacked where
    v: "data (key self) = Some v" and
    oh: "first_item data (height_key self) = Inr oh" and
    ow: "first_item data (width_key self) = Inr ow" and
    el: "first_elem v = Inr el" and
    rs: "resize_size_of_first self el oh ow = Inr (rs, (h, w))" and
    ref: "get_reference_frame gen self rs h w s = Inr (ref, s')" and
    frs: "frames_of v = Inr frs" and
    lp: "frames_loop rsz self rs ref frs [] = Inr result" and
    st: "torch_stack result = Inr stacked" and
    out: "data' = data(key self \<mapsto> Stacked Float16 (map (map (map (map f16))) stacked))"
    unfolding VideoResizer_call_def
    by (auto split: option.splits sum.splits prod.splits if_splits)
  from frs have vf: "v = Frames frs" by (simp add: frames_of_Inr)
  with el obtain fr0 frs' where cons: "frs = fr0 # frs'" and el': "el = FrameElem fr0"
    by (auto simp: first_elem_def split: list.splits)
  from rs el' cons have rs': "get_resize_size self (hd frs) oh ow = Inr (rs, (h, w))"
    by (simp add: resize_size_of_first_def)
  from st have "stacked = result"
    unfolding torch_stack_def by (auto dest: stack_frames_result)
  with frames_loop_result [OF lp]
  have "map (map (map (map f16))) stacked
      = map (\<lambda>fr. map (map (map f16)) (transform_frame rsz self rs ref fr)) frs"
    by simp
  with out have out': "data' = data(key self \<mapsto>
      Stacked Float16 (map (\<lambda>fr. map (map (map f16)) (transform_frame rsz self rs ref fr)) frs))"
    by simp
  from cons have ne: "frs \<noteq> []" by simp
  from v frs ne oh ow rs' ref out' get_reference_frame_state [OF ref] show ?thesis
    by (intro exI [of _ v] exI [of _ frs] exI [of _ oh] exI [of _ ow] exI [of _ rs]
        exI [of _ h] exI [of _ w] exI [of _ ref]) simp
qed

text \<open>
  The random-crop resizer on the example sample: the call returns after two draws, and
  both frames are transformed with one resize size and one reference.
\<close>

theorem same_clip_consistency_witness:
  "\<exists>data' rs ref.
      VideoResizer_call demo_gen (\<lambda>_ fr. fr) (\<lambda>v. v)
        (demo_resizer None (Some (Scalar 2)) True) demo_sample 0 = Inr (data', 2)
    \<and> data' = demo_sample(''mp4'' \<mapsto> Stacked Float16
        (map (\<lambda>fr. map (map (map (\<lambda>v. v)))
           (transform_frame (\<lambda>_ fr. fr) (demo_resizer None (Some (Scalar 2)) True) rs ref fr))
           demo_frames))"
proof -
  let ?self = "demo_resizer None (Some (Scalar 2)) True"
  from demo_rand_call obtain d where
    c: "VideoResizer_call demo_gen (\<lambda>_ fr. fr) (\<lambda>v. v) ?self demo_sample 0 = Inr (d, 2)" ..
  have cfg: "\<not> (crop_size ?self = None \<and> resize_size ?self = None)"
    by (simp add: demo_resizer_fields)
  from same_clip_consistency [OF c cfg] c show ?thesis
    by (auto simp: demo_resizer_fields demo_sample_fields frames_of_Inr)
qed

text \<open>
  C3. The claim is that a crop size exceeding a pair resize size makes the call fail with
  an assertion error whether random or center cropping is selected. The check
  \<^verbatim>\<open>'Resize size must be greater or equal than crop_size'\<close> is the first statement of
  \<open>get_rand_reference\<close>, which \<open>get_reference_frame\<close> calls for random cropping only;
  the center branch computes \<^verbatim>\<open>[h // 2, w // 2]\<close> without it, and no other statement of
  the call asserts. So with center cropping no call ever raises an assertion error,
  whatever the sizes are: an oversized crop is cut by slices that start before the frame.
\<close>

theorem center_crop_unchecked:
  assumes nr: "\<not> random_crop self"
  shows "VideoResizer_call gen rsz f16 self data s \<noteq> Inl AssertionError"
proof
  assume a: "VideoResizer_call gen rsz f16 self data s = Inl AssertionError"
  show False
  proof (cases "crop_size self = None \<and> resize_size self = None")
    case True
    with a show False
      unfolding VideoResizer_call_def np_stack_def
      by (auto split: option.splits val.splits sum.splits dest: stack_frames_error)
  next
    case False
    with a show False
      unfolding VideoResizer_call_def center_reference [OF nr] torch_stack_def
      using first_item_no_assert first_elem_no_assert resize_size_of_first_no_assert
        loop_error_no_assert
      by (auto split: option.splits sum.splits prod.splits
          dest: stack_frames_error frames_loop_error)
  qed
qed

text \<open>
  A resizer with resize size \<open>[2, 2]\<close>, crop size \<open>[4, 4]\<close> and center cropping, on the
  example sample of two 2 x 2 frames: the reference is \<open>(1, 1)\<close>, the window starts at
  \<open>1 - round(4 / 2) = -1\<close>, and the slice \<^verbatim>\<open>[-1:3]\<close> of two rows or columns keeps the last
  one. The call returns two 1 x 1 frames, the bottom right pixels 102 and 51 rescaled.
\<close>

theorem center_crop_unchecked_witness:
  "VideoResizer_call demo_gen (\<lambda>_ fr. fr) (\<lambda>v. v)
        (demo_resizer (Some (Pair 2 2)) (Some (Pair 4 4)) False) demo_sample 0 \<noteq> Inl AssertionError
   \<and> VideoResizer_call demo_gen (\<lambda>_ fr. fr) (\<lambda>v. v)
        (demo_resizer (Some (Pair 2 2)) (Some (Pair 4 4)) False) demo_sample 0
     = Inr (demo_sample(''mp4'' \<mapsto> Stacked Float16 [[[[- (1 / 5)]]], [[[- (3 / 5)]]]]), 0)"
proof -
  have n: "\<not> random_crop (demo_resizer (Some (Pair 2 2)) (Some (Pair 4 4)) False)"
    by (simp add: demo_resizer_fields)
  from center_crop_unchecked [OF n, of demo_gen "\<lambda>_ fr. fr" "\<lambda>v. v" demo_sample 0] demo_center_call
  show ?thesis by simp
qed

text \<open>
  C4, as amended. The identity path. With neither a resize size nor a crop size, a video
  value that is a non-empty list of frames of one common shape is replaced by the same
  frames stacked, with their values and element type as they were; every other field of
  the sample and the state of the generator are unchanged; a video value that is no list
  passes through unchanged.
\<close>

theorem identity_path:
  assumes "crop_size self = None" and "resize_size self = None"
    and "data (key self) = Some v"
    and "\<forall>frs. v = Frames frs \<longrightarrow>
           frs \<noteq> [] \<and> list_all (\<lambda>fr. frame_dims fr = frame_dims (hd frs)) frs"
  shows "\<exists>data'. VideoResizer_call gen rsz f16 self data s = Inr (data', s)
         \<and> data' (key self) = Some (case v of Frames frs \<Rightarrow> Stacked Native frs | _ \<Rightarrow> v)
         \<and> (\<forall>k. k \<noteq> key self \<longrightarrow> data' k = data k)"
proof (cases v)
  case (Frames frs)
  with assms(4) obtain fr0 frs' where c: "frs = fr0 # frs'"
    and s: "list_all (\<lambda>fr. frame_dims fr = frame_dims (hd frs)) frs"
    by (cases frs) auto
  from c s have "np_stack frs = Inr frs" by (simp add: np_stack_def stack_frames_def)
  with assms(1-3) Frames show ?thesis by (simp add: VideoResizer_call_def)
qed (use assms(1-3) in \<open>simp_all add: VideoResizer_call_def\<close>)

theorem identity_path_witness:
  "\<exists>data'. VideoResizer_call demo_gen (\<lambda>_ fr. fr) (\<lambda>v. v) (demo_resizer None None False) demo_sample 0
             = Inr (data', 0)
         \<and> data' ''mp4'' = Some (Stacked Native demo_frames)
         \<and> data' ''original_height'' = Some (Meta [2])"
proof -
  let ?self = "demo_resizer None None False"
  have h: "crop_size ?self = None" "resize_size ?self = None"
    "demo_sample (key ?self) = Some (Frames demo_frames)"
    by (simp_all add: demo_resizer_fields demo_sample_fields)
  have w: "\<forall>frs. Frames demo_frames = Frames frs \<longrightarrow>
      frs \<noteq> [] \<and> list_all (\<lambda>fr. frame_dims fr = frame_dims (hd frs)) frs"
    by (simp add: demo_frames_def frame_dims_def)
  have k: "key ?self = ''mp4''" "demo_sample ''original_height'' = Some (Meta [2])"
    by (simp_all add: demo_resizer_fields demo_sample_def)
  from identity_path [of ?self demo_sample _ demo_gen "\<lambda>_ fr. fr" "\<lambda>v. v" 0, OF h w] k
  show ?thesis by auto
qed

text \<open>
  The claim as stated covers every sequence of frames. An empty list is one, and
  \<^verbatim>\<open>np.stack\<close> refuses it: the call raises \<open>ValueError\<close> and returns no sample.
\<close>

theorem identity_path_empty_counterexample:
  "VideoResizer_call demo_gen (\<lambda>_ fr. fr) (\<lambda>v. v) (demo_resizer None None False)
     (demo_sample(''mp4'' \<mapsto> Frames [])) 0 = Inl ValueError"
  by (simp add: VideoResizer_call_def demo_resizer_fields np_stack_def stack_frames_def)

text \<open>
  C5. Whenever \<open>get_rand_reference\<close> returns a reference \<open>(y, x)\<close>, each coordinate
  lies between \<open>ceil(crop / 2)\<close> and \<open>dim - ceil(crop / 2)\<close>, both included. The two
  draws are made by \<open>randint\<close> on the half-open ranges from \<open>ceil(crop / 2)\<close> to the
  upper bound \<open>dim - ceil(crop / 2)\<close>, bumped by 1 and clamped to \<open>dim\<close> when the two
  bounds are equal; \<open>x\<close> is drawn first. In the bumped case the only value of the range is
  \<open>ceil(crop / 2) = dim - ceil(crop / 2)\<close>, so the closed bounds hold there as well.
  Every value of a non-empty range is drawn for some raw number (\<open>randint_attains\<close>);
  how the raw numbers are distributed is the generator's matter.
\<close>

theorem rand_reference_bounds:
  assumes ok: "get_rand_reference gen self rs h w s = Inr ((y, x), s')"
    and cs: "crop_size self = Some (ch, cw)"
  shows "\<lceil>real_of_int ch / 2\<rceil> \<le> y \<and> y \<le> h - \<lceil>real_of_int ch / 2\<rceil>
       \<and> \<lceil>real_of_int cw / 2\<rceil> \<le> x \<and> x \<le> w - \<lceil>real_of_int cw / 2\<rceil>
       \<and> (\<exists>max_y max_x s1.
             max_y = (if \<lceil>real_of_int ch / 2\<rceil> = h - \<lceil>real_of_int ch / 2\<rceil>
                      then min (h - \<lceil>real_of_int ch / 2\<rceil> + 1) h else h - \<lceil>real_of_int ch / 2\<rceil>)
           \<and> max_x = (if \<lceil>real_of_int cw / 2\<rceil> = w - \<lceil>real_of_int cw / 2\<rceil>
                      then min (w - \<lceil>real_of_int cw / 2\<rceil> + 1) w else w - \<lceil>real_of_int cw / 2\<rceil>)
           \<and> randint gen \<lceil>real_of_int cw / 2\<rceil> max_x s = Inr (x, s1)
           \<and> randint gen \<lceil>real_of_int ch / 2\<rceil> max_y s1 = Inr (y, s')
           \<and> y < max_y \<and> x < max_x)"
proof -
  define min_x where "min_x = \<lceil>real_of_int cw / 2\<rceil>"
  define min_y where "min_y = \<lceil>real_of_int ch / 2\<rceil>"
  define max_x where "max_x = (if min_x = w - min_x then min (w - min_x + 1) w else w - min_x)"
  define max_y where "max_y = (if min_y = h - min_y then min (h - min_y + 1) h else h - min_y)"
  from ok cs obtain s1 where
    dx: "randint gen min_x max_x s = Inr (x, s1)" and
    dy: "randint gen min_y max_y s1 = Inr (y, s')"
    unfolding get_rand_reference_def min_x_def min_y_def max_x_def max_y_def
    by (auto simp: Let_def split: if_splits sum.splits prod.splits)
  from randint_range [OF dx] have x: "min_x \<le> x" "x < max_x" by simp_all
  from randint_range [OF dy] have y: "min_y \<le> y" "y < max_y" by simp_all
  from x have x': "x \<le> w - min_x" unfolding max_x_def by (rule bumped_bound)
  from y have y': "y \<le> h - min_y" unfolding max_y_def by (rule bumped_bound)
  from x y x' y' dx dy show ?thesis
    unfolding min_x_def min_y_def max_x_def max_y_def by blast
qed

theorem rand_reference_bounds_witness:
  "get_rand_reference demo_gen (demo_resizer None (Some (Scalar 2)) True) None 4 6 3 = Inr ((1, 4), 5)
   \<and> \<lceil>real_of_int 2 / 2\<rceil> \<le> (1::int) \<and> (1::int) \<le> 4 - \<lceil>real_of_int 2 / 2\<rceil>
   \<and> \<lceil>real_of_int 2 / 2\<rceil> \<le> (4::int) \<and> (4::int) \<le> 6 - \<lceil>real_of_int 2 / 2\<rceil>"
proof -
  let ?self = "demo_resizer None (Some (Scalar 2)) True"
  have ok: "get_rand_reference demo_gen ?self None 4 6 3 = Inr ((1, 4), 5)"
    by (simp add: get_rand_reference_def demo_resizer_fields randint_def demo_gen_def)
  have cs: "crop_size ?self = Some (2, 2)" by (simp add: demo_resizer_fields)
  from rand_reference_bounds [OF ok cs] ok show ?thesis by blast
qed

text \<open>
  C8. For a scalar resize size \<open>S\<close> and original dimensions whose smaller one is not 0,
  all three below \<open>2 ^ 53\<close> in magnitude (integers that are doubles), \<open>get_resize_size\<close>
  returns the pair \<open>(round(orig_h * f), round(orig_w * f))\<close> for the factor
  \<open>f = S / min(orig_h, orig_w)\<close>, where the quotient and the two products are the
  double-precision results: each is the exact result rounded to the nearest double, which
  is within the relative error \<open>2 ^ -53\<close> (plus the subnormal spacing) of it. \<open>round\<close>
  gives the nearest integer, a tie going to the even one. For (100, 200) and \<open>S = 50\<close> the
  size is (50, 100); for (320, 325) and \<open>S = 224\<close> it is (224, 227), the product
  \<open>325 * 0.7\<close> falling just below 227.5; for (1200, 800) and \<open>S = 299\<close> it is (449, 299),
  the product falling just above 448.5.
\<close>

theorem scalar_resize_size:
  assumes rs: "resize_size self = Some (Scalar S)"
    and m: "min orig_h orig_w \<noteq> 0"
    and bS: "\<bar>S\<bar> < 2 ^ 53" and bh: "\<bar>orig_h\<bar> < 2 ^ 53" and bw: "\<bar>orig_w\<bar> < 2 ^ 53"
  shows "\<exists>f ph pw nh nw.
           get_resize_size self fr orig_h orig_w = Inr (Some (nh, nw), (nh, nw))
         \<and> f = double_round (real_of_int S / real_of_int (min orig_h orig_w))
         \<and> \<bar>f - real_of_int S / real_of_int (min orig_h orig_w)\<bar>
             \<le> \<bar>real_of_int S / real_of_int (min orig_h orig_w)\<bar> / 2 ^ 53 + 2 powi (- 1075)
         \<and> ph = double_round (real_of_int orig_h * f)
         \<and> \<bar>ph - real_of_int orig_h * f\<bar> \<le> \<bar>real_of_int orig_h * f\<bar> / 2 ^ 53 + 2 powi (- 1075)
         \<and> pw = double_round (real_of_int orig_w * f)
         \<and> \<bar>pw - real_of_int orig_w * f\<bar> \<le> \<bar>real_of_int orig_w * f\<bar> / 2 ^ 53 + 2 powi (- 1075)
         \<and> nh = py_round ph \<and> \<bar>real_of_int nh - ph\<bar> \<le> 1 / 2
         \<and> (ph - real_of_int \<lfloor>ph\<rfloor> = 1 / 2 \<longrightarrow> even nh)
         \<and> nw = py_round pw \<and> \<bar>real_of_int nw - pw\<bar> \<le> 1 / 2
         \<and> (pw - real_of_int \<lfloor>pw\<rfloor> = 1 / 2 \<longrightarrow> even nw)
         \<and> (S = 50 \<and> orig_h = 100 \<and> orig_w = 200 \<longrightarrow> nh = 50 \<and> nw = 100)
         \<and> (S = 224 \<and> orig_h = 320 \<and> orig_w = 325 \<longrightarrow> nh = 224 \<and> nw = 227)
         \<and> (S = 299 \<and> orig_h = 1200 \<and> orig_w = 800 \<longrightarrow> nh = 449 \<and> nw = 299)"
proof -
  define q where "q = real_of_int S / real_of_int (min orig_h orig_w)"
  define f where "f = double_round q"
  define ph where "ph = double_round (real_of_int orig_h * f)"
  define pw where "pw = double_round (real_of_int orig_w * f)"
  have S': "\<bar>real_of_int S\<bar> < 2 ^ 53"
    using bS by (metis of_int_abs of_int_less_numeral_power_cancel_iff)
  have "1 \<le> \<bar>min orig_h orig_w\<bar>" using m by simp
  then have m1: "1 \<le> \<bar>real_of_int (min orig_h orig_w)\<bar>" by (metis of_int_abs of_int_1_le_iff)
  have "\<bar>q\<bar> = \<bar>real_of_int S\<bar> / \<bar>real_of_int (min orig_h orig_w)\<bar>"
    unfolding q_def by (rule abs_divide)
  also have "\<dots> \<le> \<bar>real_of_int S\<bar> / 1"
    using m1 by (intro divide_left_mono) simp_all
  finally have q: "\<bar>q\<bar> < 2 ^ 53" using S' by simp
  then have "\<bar>q\<bar> \<le> 2 ^ 110" by simp
  then have tq: "to_double q = Inr f" unfolding f_def by (rule to_double_bounded)
  have "\<bar>f\<bar> \<le> \<bar>q\<bar> + \<bar>f - q\<bar>" by linarith
  also have "\<dots> \<le> \<bar>q\<bar> + (\<bar>q\<bar> / 2 ^ 53 + 2 powi (- 1075))"
    using double_round_error_general [of q] unfolding f_def by linarith
  also have "\<dots> \<le> \<bar>q\<bar> + (\<bar>q\<bar> + 1)"
  proof -
    have "\<bar>q\<bar> / 2 ^ 53 \<le> \<bar>q\<bar>" by (simp add: field_simps)
    with tiny_le_one show ?thesis by linarith
  qed
  also have "\<dots> \<le> 2 ^ 55" using q by simp
  finally have fb: "\<bar>f\<bar> \<le> 2 ^ 55" .
  have th: "int_times_float orig_h f = Inr ph"
    unfolding ph_def using bh fb by (rule int_times_float_bounded)
  have tw: "int_times_float orig_w f = Inr pw"
    unfolding pw_def using bw fb by (rule int_times_float_bounded)
  have res: "get_resize_size self fr orig_h orig_w
      = Inr (Some (py_round ph, py_round pw), (py_round ph, py_round pw))"
    using rs m tq th tw by (simp add: get_resize_size_def q_def Let_def)
  have i1: "py_round ph = 50 \<and> py_round pw = 100" if h: "S = 50 \<and> orig_h = 100 \<and> orig_w = 200"
  proof -
    from h have e: "S = 50" "orig_h = 100" "orig_w = 200" by simp_all
    show ?thesis unfolding ph_def pw_def f_def q_def e by (intro conjI resize_dims_50_100_200)
  qed
  have i2: "py_round ph = 224 \<and> py_round pw = 227" if h: "S = 224 \<and> orig_h = 320 \<and> orig_w = 325"
  proof -
    from h have e: "S = 224" "orig_h = 320" "orig_w = 325" by simp_all
    show ?thesis unfolding ph_def pw_def f_def q_def e by (intro conjI resize_dims_224_320_325)
  qed
  have i3: "py_round ph = 449 \<and> py_round pw = 299" if h: "S = 299 \<and> orig_h = 1200 \<and> orig_w = 800"
  proof -
    from h have e: "S = 299" "orig_h = 1200" "orig_w = 800" by simp_all
    show ?thesis unfolding ph_def pw_def f_def q_def e by (intro conjI resize_dims_299_1200_800)
  qed
  show ?thesis
    apply (rule exI [of _ f], rule exI [of _ ph], rule exI [of _ pw])
    apply (rule exI [of _ "py_round ph"], rule exI [of _ "py_round pw"])
    apply (intro conjI impI)
    subgoal by (rule res)
    subgoal unfolding f_def q_def ..
    subgoal using double_round_error_general [of q] unfolding f_def q_def .
    subgoal by (rule ph_def)
    subgoal using double_round_error_general [of "real_of_int orig_h * f"] unfolding ph_def .
    subgoal by (rule pw_def)
    subgoal using double_round_error_general [of "real_of_int orig_w * f"] unfolding pw_def .
    subgoal ..
    subgoal by (rule py_round_nearest)
    subgoal by (rule py_round_tie_even)
    subgoal ..
    subgoal by (rule py_round_nearest)
    subgoal by (rule py_round_tie_even)
    subgoal using i1 by simp
    subgoal using i1 by simp
    subgoal using i2 by simp
    subgoal using i2 by simp
    subgoal using i3 by simp
    subgoal using i3 by simp
    done
qed

theorem scalar_resize_size_witness:
  "get_resize_size (demo_resizer (Some (Scalar 50)) None False) (hd demo_frames) 100 200
     = Inr (Some (50, 100), (50, 100))
   \<and> get_resize_size (demo_resizer (Some (Scalar 224)) None False) (hd demo_frames) 320 325
     = Inr (Some (224, 227), (224, 227))"
proof -
  have r: "resize_size (demo_resizer (Some (Scalar S)) None False) = Some (Scalar S)" for S
    by (simp add: demo_resizer_fields)
  have m: "min (100::int) 200 \<noteq> 0" "min (320::int) 325 \<noteq> 0" by simp_all
  have b: "\<bar>50::int\<bar> < 2 ^ 53" "\<bar>100::int\<bar> < 2 ^ 53" "\<bar>200::int\<bar> < 2 ^ 53"
    "\<bar>224::int\<bar> < 2 ^ 53" "\<bar>320::int\<bar> < 2 ^ 53" "\<bar>325::int\<bar> < 2 ^ 53" by simp_all
  from scalar_resize_size [OF r m(1) b(1,2,3), of "hd demo_frames"]
  obtain nh nw where
    "get_resize_size (demo_resizer (Some (Scalar 50)) None False) (hd demo_frames) 100 200
       = Inr (Some (nh, nw), (nh, nw))"
    and "(50::int) = 50 \<and> (100::int) = 100 \<and> (200::int) = 200 \<longrightarrow> nh = 50 \<and> nw = 100"
    by blast
  then have a: "get_resize_size (demo_resizer (Some (Scalar 50)) None False) (hd demo_frames) 100 200
     = Inr (Some (50, 100), (50, 100))" by simp
  from scalar_resize_size [OF r m(2) b(4,5,6), of "hd demo_frames"]
  obtain nh nw where
    "get_resize_size (demo_resizer (Some (Scalar 224)) None False) (hd demo_frames) 320 325
       = Inr (Some (nh, nw), (nh, nw))"
    and "(224::int) = 224 \<and> (320::int) = 320 \<and> (325::int) = 325 \<longrightarrow> nh = 224 \<and> nw = 227"
    by blast
  then have c: "get_resize_size (demo_resizer (Some (Scalar 224)) None False) (hd demo_frames) 320 325
     = Inr (Some (224, 227), (224, 227))" by simp
  from a c show ?thesis by (rule conjI)
qed

text \<open>
  C9, as amended. In the loop body every pixel value \<open>v\<close> of the resized and cropped
  frame becomes \<open>v / 127.5 - 1\<close>. The map sends the values from 0 to 255 into the closed
  interval from -1 to 1: 0 to -1, 127.5 to 0 and 255 to 1.
\<close>

theorem pixel_rescale:
  "transform_frame rsz self rs ref fr
     = map (map (map (\<lambda>v. v / 127.5 - 1))) (resize_crop_frame rsz self rs ref fr)
   \<and> (\<forall>v. 0 \<le> v \<and> v \<le> 255 \<longrightarrow> - 1 \<le> rescale v \<and> rescale v \<le> 1)
   \<and> rescale 0 = - 1 \<and> rescale 127.5 = 0 \<and> rescale 255 = 1"
proof -
  have r: "rescale = (\<lambda>v. v / 127.5 - 1)"
    by (rule ext) (simp add: rescale_def)
  have a: "transform_frame rsz self rs ref fr
     = map (map (map (\<lambda>v. v / 127.5 - 1))) (resize_crop_frame rsz self rs ref fr)"
    unfolding transform_frame_def r ..
  have b: "- 1 \<le> rescale v \<and> rescale v \<le> 1" if "0 \<le> v \<and> v \<le> 255" for v
    using that by (simp add: rescale_def field_simps)
  have c: "rescale 0 = - 1 \<and> rescale 127.5 = 0 \<and> rescale 255 = 1"
    by (simp add: rescale_def)
  from a b c show ?thesis by blast
qed

theorem pixel_rescale_witness:
  "(0::real) \<le> 51 \<and> (51::real) \<le> 255 \<and> - 1 \<le> rescale 51 \<and> rescale 51 \<le> 1
   \<and> transform_frame (\<lambda>_ fr. fr) (demo_resizer None (Some (Scalar 2)) False) None (1, 1) [[[0], [255]], [[51], [102]]]
       = [[[- 1], [1]], [[- (3 / 5)], [- (1 / 5)]]]"
proof -
  have g: "resize_crop_frame (\<lambda>_ fr. fr) (demo_resizer None (Some (Scalar 2)) False) None (1, 1)
      [[[0], [255]], [[51], [102]]] = [[[0], [255]], [[51], [102]]]"
    by (simp add: resize_crop_frame_def demo_resizer_fields py_round_simps py_slice_def slice_index_def)
  from pixel_rescale [of "\<lambda>_ fr. fr" "demo_resizer None (Some (Scalar 2)) False" None "(1, 1)"
      "[[[0], [255]], [[51], [102]]]"]
  show ?thesis by (simp add: g)
qed

text \<open>The claim as stated gives the half-open interval [-1, 1), which 255 leaves.\<close>

theorem pixel_rescale_counterexample: "rescale 255 = 1 \<and> \<not> rescale 255 < 1"
  by (simp add: rescale_def)

text \<open>
  C10. Without a crop size, a resizer constructed with \<open>random_crop = True\<close> gives the
  same result as one constructed with \<open>random_crop = False\<close>, and the result does not
  depend on the random source: for any other generator \<open>gen'\<close> and state \<open>s0\<close> the
  call returns the same error or the same sample, and the state it was given comes back
  unchanged, so no draw is made.
\<close>

theorem no_crop_call_deterministic:
  "VideoResizer_call gen rsz f16 (VideoResizer_init size' None True k wk hk) data s
     = VideoResizer_call gen rsz f16 (VideoResizer_init size' None False k wk hk) data s
   \<and> VideoResizer_call gen rsz f16 (VideoResizer_init size' None True k wk hk) data s
     = map_sum id (\<lambda>out. (fst out, s))
         (VideoResizer_call gen' rsz f16 (VideoResizer_init size' None True k wk hk) data s0)"
proof -
  have e: "VideoResizer_init size' None True k wk hk = VideoResizer_init size' None False k wk hk"
    by (simp add: VideoResizer_init_def)
  have n: "\<not> random_crop (VideoResizer_init size' None False k wk hk)"
    by (simp add: VideoResizer_init_def)
  show ?thesis unfolding e using center_call_state_free [OF n] by simp
qed

theorem no_crop_call_deterministic_witness:
  "VideoResizer_call demo_gen (\<lambda>_ fr. fr) (\<lambda>v. v) (demo_resizer (Some (Pair 2 2)) None True) demo_sample 7
     = VideoResizer_call demo_gen (\<lambda>_ fr. fr) (\<lambda>v. v) (demo_resizer (Some (Pair 2 2)) None False) demo_sample 7
   \<and> VideoResizer_call demo_gen (\<lambda>_ fr. fr) (\<lambda>v. v) (demo_resizer (Some (Pair 2 2)) None True) demo_sample 7
     = Inr (demo_sample(''mp4'' \<mapsto> Stacked Float16
              [[[[- 1], [1]], [[- (3 / 5)], [- (1 / 5)]]], [[[1], [- 1]], [[- (1 / 5)], [- (3 / 5)]]]]), 7)"
proof -
  from no_crop_call_deterministic [of demo_gen "\<lambda>_ fr. fr" "\<lambda>v. v" "Some (Pair 2 2)" "''mp4''"
      "''original_width''" "''original_height''" demo_sample 7 demo_gen 7] demo_resize_call
  show ?thesis by (simp add: demo_resizer_def)
qed

section \<open>Properties of video_transform\<close>

text \<open>
  What the transform does before the per-frame pipeline, for any pipeline \<open>ft\<close>: with a
  positive stride and a positive \<open>n_frames\<close> the subsampled and truncated frames are
  followed by zero frames up to \<open>n_frames\<close>, the pipeline is applied to that padded list,
  frame after frame, and a call that returns has \<open>n_frames\<close> output frames.
\<close>

lemma padded_before_pipeline:
  assumes k: "0 < take_every_nth" and n: "0 < n_frames"
  shows "\<exists>sampled padded.
           sampled = take (nat n_frames) (every_nth (nat take_every_nth) (clip (permute_0312 video)))
         \<and> padded = sampled @ replicate (nat n_frames - length sampled) (zeros (dims (permute_0312 video)))
         \<and> length padded = nat n_frames
         \<and> apply_frame_transform ft n_frames take_every_nth (video, a, b) r = map_frames ft padded r
         \<and> (\<forall>outs r'. apply_frame_transform ft n_frames take_every_nth (video, a, b) r = Inr (outs, r')
               \<longrightarrow> length outs = nat n_frames)"
proof -
  let ?v = "permute_0312 video"
  let ?s = "take (nat n_frames) (every_nth (nat take_every_nth) (clip ?v))"
  let ?p = "?s @ replicate (nat n_frames - length ?s) (zeros (dims ?v))"
  have ts: "temporal_sample take_every_nth n_frames (clip ?v) = Inr ?s"
    using k n by (simp add: temporal_sample_def strided_def py_slice_prefix)
  have pad: "pad_frames n_frames (dims ?v) ?s = ?p"
    using n by (auto simp: pad_frames_def)
  have len: "length ?p = nat n_frames" by simp
  have ne: "outs \<noteq> []" if "map_frames ft ?p r = Inr (outs, r')" for outs r'
    using length_map_frames [OF that] len n by auto
  have call: "apply_frame_transform ft n_frames take_every_nth (video, a, b) r = map_frames ft ?p r"
  proof (cases "map_frames ft ?p r")
    case (Inl e)
    then show ?thesis by (simp add: apply_frame_transform_def ts pad Let_def)
  next
    case (Inr res)
    obtain outs r' where res: "res = (outs, r')" by (cases res)
    with Inr ne [of outs r'] obtain out outs' where "outs = out # outs'" by (cases outs) auto
    with Inr res show ?thesis by (simp add: apply_frame_transform_def ts pad Let_def)
  qed
  have cnt: "\<forall>outs r'. apply_frame_transform ft n_frames take_every_nth (video, a, b) r = Inr (outs, r')
               \<longrightarrow> length outs = nat n_frames"
    unfolding call using length_map_frames [of ft ?p r] len by auto
  from len call cnt show ?thesis by blast
qed

text \<open>
  C6. The claim is that the output of the transform always has exactly \<open>n_frames\<close> frames,
  the zero padding going through the same pipeline as the real frames. The training
  pipeline is built with \<^verbatim>\<open>RandomResizedCrop(frame_size, scale=(0.9, 0.1))\<close>, a scale range
  whose lower bound is above the upper one, so the draw of the area fraction is refused on
  the first frame the pipeline is given. With \<open>is_train\<close> set no call of the transform
  returns an output, for any library transforms, configuration, clip and random state:
  it raises on the first frame, or before it (a stride that is not positive, no frame
  left to concatenate).
\<close>

theorem training_transform_raises:
  "\<exists>e. video_transform lib frame_size n_frames take_every_nth True smp r = Inl e"
proof -
  obtain video a b where smp: "smp = (video, a, b)" by (cases smp)
  let ?ft = "train_transform lib frame_size"
  let ?v = "permute_0312 video"
  show ?thesis
  proof (cases "temporal_sample take_every_nth n_frames (clip ?v)")
    case (Inl e)
    then show ?thesis
      by (simp add: video_transform_def apply_frame_transform_def smp Let_def)
  next
    case (Inr frs)
    show ?thesis
    proof (cases "map_frames ?ft (pad_frames n_frames (dims ?v) frs) r")
      case (Inl e)
      with Inr show ?thesis
        by (simp add: video_transform_def apply_frame_transform_def frame_transform_def smp Let_def)
    next
      case out: (Inr out)
      from map_frames_first_raises [OF train_transform_raises out]
      have "out = ([], r)" by simp
      with Inr out show ?thesis
        by (simp add: video_transform_def apply_frame_transform_def frame_transform_def smp Let_def)
    qed
  qed
qed

text \<open>
  A clip of three frames with \<open>n_frames = 5\<close> and stride 1, and library transforms that
  never refuse an image: in training mode the call raises \<open>RuntimeError\<close>; in evaluation
  mode it returns five frames, the last two being the zero frames after the pipeline
  (which adds 1 to every value).
\<close>

theorem training_transform_raises_witness:
  "video_transform demo_lib 224 5 1 True (demo_clip3, (), ()) 0 = Inl RuntimeError
   \<and> video_transform demo_lib 224 5 1 False (demo_clip3, (), ()) 0
       = Inr ([[[[11]]], [[[21]]], [[[31]]], [[[1]]], [[[1]]]], 0)"
proof -
  have b: "video_transform demo_lib 224 5 1 False (demo_clip3, (), ()) 0
       = Inr ([[[[11]]], [[[21]]], [[[31]]], [[[1]]], [[[1]]]], 0)"
    by (simp add: video_transform_def apply_frame_transform_def frame_transform_def demo_permute
        demo_sampled demo_padded demo_eval_transform)
  from training_transform_raises [of demo_lib 224 5 1 "(demo_clip3, (), ())" 0]
  obtain err where r: "video_transform demo_lib 224 5 1 True (demo_clip3, (), ()) 0 = Inl err" ..
  have "video_transform demo_lib 224 5 1 True (demo_clip3, (), ()) 0 = Inl RuntimeError"
    by (simp add: video_transform_def apply_frame_transform_def frame_transform_def demo_permute
        demo_sampled demo_padded demo_train_transform)
  with r b show ?thesis by simp
qed

text \<open>
  C7. For a positive stride \<open>k\<close> and a non-negative \<open>n\<close>, the temporal sampler returns
  the first \<open>n\<close> of the frames at positions 0, k, 2k, ...: the result has
  \<open>min n (ceil (length / k))\<close> frames and its frame \<open>i\<close> is the input frame \<open>i * k\<close>.
  A 20-frame input with stride 2 and \<open>n = 5\<close> gives the input frames 0, 2, 4, 6, 8, which
  the padding statement leaves as they are.
\<close>

theorem temporal_sample_stride:
  assumes k: "0 < k" and n: "0 \<le> n"
  shows "temporal_sample k n frs = Inr (take (nat n) (every_nth (nat k) frs))
       \<and> length (take (nat n) (every_nth (nat k) frs))
           = min (nat n) ((length frs + nat k - 1) div nat k)
       \<and> (\<forall>i < length (take (nat n) (every_nth (nat k) frs)).
             take (nat n) (every_nth (nat k) frs) ! i = frs ! (i * nat k))
       \<and> (length frs = 20 \<longrightarrow>
             temporal_sample 2 5 frs = Inr [frs ! 0, frs ! 2, frs ! 4, frs ! 6, frs ! 8]
           \<and> pad_frames 5 d [frs ! 0, frs ! 2, frs ! 4, frs ! 6, frs ! 8]
               = [frs ! 0, frs ! 2, frs ! 4, frs ! 6, frs ! 8])"
proof -
  from k have k': "0 < nat k" by simp
  have a: "temporal_sample k n frs = Inr (take (nat n) (every_nth (nat k) frs))"
    using k n by (simp add: temporal_sample_def strided_def py_slice_prefix)
  have b: "length (take (nat n) (every_nth (nat k) frs))
      = min (nat n) ((length frs + nat k - 1) div nat k)"
    using length_every_nth [OF k', of frs] by (simp add: min.commute)
  have c: "\<forall>i < length (take (nat n) (every_nth (nat k) frs)).
      take (nat n) (every_nth (nat k) frs) ! i = frs ! (i * nat k)"
    using nth_every_nth [OF k'] by auto
  have d: "temporal_sample 2 5 frs = Inr [frs ! 0, frs ! 2, frs ! 4, frs ! 6, frs ! 8]"
    if len: "length frs = 20"
  proof -
    have l: "length (take 5 (every_nth 2 frs)) = 5"
      using length_every_nth [of 2 frs] len by simp
    have e: "take 5 (every_nth 2 frs) ! i = frs ! (i * 2)" if "i < 5" for i
      using nth_every_nth [of 2 i frs] length_every_nth [of 2 frs] len that by simp
    have "take 5 (every_nth 2 frs) = [frs ! 0, frs ! 2, frs ! 4, frs ! 6, frs ! 8]"
    proof (rule nth_equalityI)
      show "length (take 5 (every_nth 2 frs)) = length [frs ! 0, frs ! 2, frs ! 4, frs ! 6, frs ! 8]"
        using l by simp
    next
      fix i assume "i < length (take 5 (every_nth 2 frs))"
      with l have "i < 5" by simp
      then consider "i = 0" | "i = 1" | "i = 2" | "i = 3" | "i = 4" by linarith
      then show "take 5 (every_nth 2 frs) ! i = [frs ! 0, frs ! 2, frs ! 4, frs ! 6, frs ! 8] ! i"
        by cases (use e [of 0] e [of 1] e [of 2] e [of 3] e [of 4] in simp_all)
    qed
    then show ?thesis
      by (simp add: temporal_sample_def strided_def py_slice_prefix)
  qed
  have p: "pad_frames 5 d [frs ! 0, frs ! 2, frs ! 4, frs ! 6, frs ! 8]
      = [frs ! 0, frs ! 2, frs ! 4, frs ! 6, frs ! 8]"
    by (simp add: pad_frames_def)
  show ?thesis
    by (intro conjI impI a b c p) (erule d)
qed

theorem temporal_sample_stride_witness:
  "temporal_sample 2 5 demo_clip20 = Inr [[[[0]]], [[[2]]], [[[4]]], [[[6]]], [[[8]]]]
   \<and> pad_frames 5 (1, 1, 1) [[[[0]]], [[[2]]], [[[4]]], [[[6]]], [[[8]]]]
       = [[[[0]]], [[[2]]], [[[4]]], [[[6]]], [[[8]]]]"
proof -
  have h: "(0::int) < 2" "(0::int) \<le> 5" by simp_all
  have l: "length demo_clip20 = 20" by (simp add: demo_clip20_def)
  have n: "demo_clip20 ! 0 = [[[0]]]" "demo_clip20 ! 2 = [[[2]]]" "demo_clip20 ! 4 = [[[4]]]"
    "demo_clip20 ! 6 = [[[6]]]" "demo_clip20 ! 8 = [[[8]]]"
    by (simp_all add: demo_clip20_def)
  have "temporal_sample 2 5 demo_clip20
      = Inr [demo_clip20 ! 0, demo_clip20 ! 2, demo_clip20 ! 4, demo_clip20 ! 6, demo_clip20 ! 8]
    \<and> pad_frames 5 (1, 1, 1)
        [demo_clip20 ! 0, demo_clip20 ! 2, demo_clip20 ! 4, demo_clip20 ! 6, demo_clip20 ! 8]
      = [demo_clip20 ! 0, demo_clip20 ! 2, demo_clip20 ! 4, demo_clip20 ! 6, demo_clip20 ! 8]"
    using temporal_sample_stride [OF h, of demo_clip20 "(1, 1, 1)"] l by blast
  then show ?thesis unfolding n .
qed

section \<open>Properties of CutsAdder\<close>

text \<open>
  C2. The claim is that a sample with both keys comes back with the nested mapping under
  the video key and without the standalone cuts key. The code builds that mapping, stores
  it under the video key and then deletes the video key: for every sample with both keys
  the result is the sample without its video entry, so the nested mapping is lost and the
  standalone cuts entry (when the two keys differ) is still there.
\<close>

theorem CutsAdder_deletes_video_entry:
  assumes "smp (cuts_key c) = Some cuts" and "smp (video_key c) = Some video"
  shows "CutsAdder_call c smp = Inr (smp(video_key c := None))"
  using assms by (simp add: CutsAdder_call_def)

text \<open>On the sample \<open>{mp4: v, cuts: c}\<close> the result is \<open>{cuts: c}\<close>.\<close>

theorem CutsAdder_deletes_video_entry_witness:
  "\<exists>out. CutsAdder_call \<lparr>cuts_key = ''cuts'', video_key = ''mp4''\<rparr>
            ((Map.empty(''mp4'' \<mapsto> Other ''v''))(''cuts'' \<mapsto> Other ''c'')) = Inr out
         \<and> out ''mp4'' = None
         \<and> out ''cuts'' = Some (Other ''c'')"
  using CutsAdder_deletes_video_entry [of "(Map.empty(''mp4'' \<mapsto> Other ''v''))(''cuts'' \<mapsto> Other ''c'')"
      "\<lparr>cuts_key = ''cuts'', video_key = ''mp4''\<rparr>" "Other ''c''" "Other ''v''"]
  by simp

end
